theory Spec2Isabelle
  imports Main "HOL-Library.Finite_Map" "HOL-Library.Option_ord" "HOL-Library.Sublist"
begin

section \<open>The admission-controlled queue of \<open>src/lib/api.js\<close>\<close>

text \<open>
  The module keeps two pieces of global state: \<open>const active = new Map()\<close>, from the URL
  of a running download to the process identifier of its child, and \<open>let queue = []\<close>,
  the URLs that wait. A JavaScript \<open>Map\<close> is a finite map; the code only reads its
  \<open>size\<close> and calls \<open>set\<close>, \<open>get\<close> and \<open>delete\<close>, so the insertion order it also keeps
  is never observed.
\<close>

type_synonym url = string
type_synonym pid = nat

record scheduler =
  active :: "(url, pid) fmap"
  queue :: "url list"

definition initial :: scheduler where
  "initial = \<lparr>active = fmempty, queue = []\<rparr>"

definition active_size :: "scheduler \<Rightarrow> int" where
  "active_size s = int (fcard (fmdom (active s)))"

text \<open>
  The listener \<open>child.stdout.on('end', ...)\<close> that \<open>download\<close>, further down, installs
  for \<open>url\<close>:
  \<open>active.delete(url); queueEvent.emit('dequeue', queue.shift())\<close>. \<open>shift\<close> on an empty
  array returns \<open>undefined\<close> and leaves the array empty; the event emitted is returned
  with the new state.
\<close>

datatype event = Dequeue "url option"

definition shift :: "'a list \<Rightarrow> 'a option \<times> 'a list" where
  "shift xs = (case xs of [] \<Rightarrow> (None, []) | x # rest \<Rightarrow> (Some x, rest))"

definition on_end :: "url \<Rightarrow> scheduler \<Rightarrow> event \<times> scheduler" where
  "on_end u s =
     (let a = fmdrop u (active s);
          (front, rest) = shift (queue s)
      in (Dequeue front, s\<lparr>active := a, queue := rest\<rparr>))"

text \<open>
  \<open>pause(url)\<close>. \<open>indexOf\<close> gives the first index at which the URL stands, or \<open>-1\<close>;
  \<open>splice(index, 1)\<close> removes that one element. \<open>active.get(url)\<close> is \<open>undefined\<close> for an
  absent key, and \<open>if (pid)\<close> also fails for the number \<open>0\<close> (and for the \<open>undefined\<close>
  that a failed \<open>spawn\<close> leaves in \<open>child.pid\<close>, for which 0 stands here). The calls of
  \<open>process.kill\<close> that \<open>pause\<close> makes are returned with the new state; what the operating
  system does with the signal is not part of this module.
\<close>

fun indexOf :: "'a list \<Rightarrow> 'a \<Rightarrow> int" where
  "indexOf [] x = -1"
| "indexOf (y # ys) x = (if y = x then 0 else (let i = indexOf ys x in if i = -1 then -1 else i + 1))"

definition splice1 :: "nat \<Rightarrow> 'a list \<Rightarrow> 'a list" where
  "splice1 i xs = take i xs @ drop (Suc i) xs"

datatype signal = Kill pid

definition pause :: "url \<Rightarrow> scheduler \<Rightarrow> signal list \<times> scheduler" where
  "pause u s =
     (let index = indexOf (queue s) u;
          q = (if index \<noteq> -1 then splice1 (nat index) (queue s) else queue s);
          sent = (case fmlookup (active s) u of
                    None \<Rightarrow> []
                  | Some p \<Rightarrow> if p \<noteq> 0 then [Kill p] else [])
      in (sent, s\<lparr>queue := q\<rparr>))"

section \<open>The progress parser\<close>

text \<open>
  A \<open>throw\<close> of the source is a value: functions that can raise return \<open>error + 'a\<close>,
  with \<open>Inl\<close> for the exception.
\<close>

datatype error = TypeError | SyntaxError

subsection \<open>Regular expressions\<close>

text \<open>
  The three patterns of the module are sequences of single characters and of greedy
  repetitions \<open>c+\<close> of a character class, some of them inside named groups. An \<open>item\<close> is
  one such element; a pattern is the list of its groups in order, each with its name
  (\<open>None\<close> for the text between two groups) and its items.

  \<open>match_here\<close> matches a sequence of items at the start of a string as a backtracking
  matcher does: a repetition first takes as many characters as the class allows and gives
  them back one at a time, down to one, until the rest of the pattern matches. The result
  lists the text taken by each item. \<open>match_from\<close> tries the start positions from left to
  right and stops at the first that matches, which is what \<open>RegExp.prototype.exec\<close> does
  for a pattern without flags. \<open>exec\<close> returns \<open>null\<close> (\<open>None\<close>) or the \<open>groups\<close> object
  of the match, as the list of names with their texts.

  A string is a list of characters with codes 0 to 255; the classes \<open>\d\<close> and \<open>\w\<close> hold
  ASCII characters only, in JavaScript as here.
\<close>

definition digit :: "char \<Rightarrow> bool" where
  "digit c = (c \<in> set ''0123456789'')"

definition word_char :: "char \<Rightarrow> bool" where
  "word_char c = (c \<in> set ''ABCDEFGHIJKLMNOPQRSTUVWXYZabcdefghijklmnopqrstuvwxyz0123456789_'')"

datatype item = Plus "char \<Rightarrow> bool" | Lit char

type_synonym regex = "(string option \<times> item list) list"

fun first_some :: "('a \<Rightarrow> 'b option) \<Rightarrow> 'a list \<Rightarrow> 'b option" where
  "first_some f [] = None"
| "first_some f (x # xs) = (case f x of Some y \<Rightarrow> Some y | None \<Rightarrow> first_some f xs)"

fun match_here :: "item list \<Rightarrow> string \<Rightarrow> string list option" where
  "match_here [] s = Some []"
| "match_here (Lit c # r) s =
     (case s of
        [] \<Rightarrow> None
      | x # xs \<Rightarrow> if x = c then map_option ((#) [x]) (match_here r xs) else None)"
| "match_here (Plus p # r) s =
     first_some (\<lambda>k. map_option ((#) (take k s)) (match_here r (drop k s)))
       (rev [1 ..< Suc (length (takeWhile p s))])"

declare match_here.simps(3) [simp del]

fun match_from :: "item list \<Rightarrow> string \<Rightarrow> string list option" where
  "match_from r [] = match_here r []"
| "match_from r (x # xs) =
     (case match_here r (x # xs) of Some parts \<Rightarrow> Some parts | None \<Rightarrow> match_from r xs)"

fun regroup :: "regex \<Rightarrow> string list \<Rightarrow> (string \<times> string) list" where
  "regroup [] parts = []"
| "regroup ((None, its) # gs) parts = regroup gs (drop (length its) parts)"
| "regroup ((Some name, its) # gs) parts =
     (name, concat (take (length its) parts)) # regroup gs (drop (length its) parts)"

definition exec :: "regex \<Rightarrow> string \<Rightarrow> (string \<times> string) list option" where
  "exec re s = map_option (regroup re) (match_from (concat (map snd re)) s)"

text \<open>
  The text of a named group. None of the three patterns has an alternative or an optional
  part, so each of its groups has a text in each of its matches.
\<close>

definition group :: "(string \<times> string) list \<Rightarrow> string \<Rightarrow> string" where
  "group groups name = (case map_of groups name of Some text \<Rightarrow> text | None \<Rightarrow> [])"

subsection \<open>Numbers\<close>

text \<open>
  A JavaScript number is a double. \<open>to_double\<close> is the double nearest to a natural number,
  ties going to the even significand: below \<open>2 ^ 53\<close> every natural number is a double.
  \<open>decimal\<close> reads a string of digits, \<open>Number\<close> is the conversion of such a string, and
  \<open>number_to_string\<close> writes the decimal digits, as JavaScript does for an integer below
  \<open>10 ^ 21\<close> (from there on it writes an exponent, which the model does not follow).
\<close>

fun bit_length :: "nat \<Rightarrow> nat" where
  "bit_length n = (if n = 0 then 0 else Suc (bit_length (n div 2)))"

definition to_double :: "nat \<Rightarrow> nat" where
  "to_double n =
     (if n < 2 ^ 53 then n
      else (let e = bit_length n - 53; q = n div 2 ^ e; r = n mod 2 ^ e; half = 2 ^ (e - 1)
            in (if r < half \<or> (r = half \<and> even q) then q else q + 1) * 2 ^ e))"

definition decimal :: "string \<Rightarrow> nat" where
  "decimal s = foldl (\<lambda>n c. 10 * n + (of_char c - 48)) 0 s"

definition Number :: "string \<Rightarrow> nat" where
  "Number s = to_double (decimal s)"

definition plus1 :: "nat \<Rightarrow> nat" where
  "plus1 x = to_double (x + 1)"

fun number_to_string :: "nat \<Rightarrow> string" where
  "number_to_string n =
     (if n < 10 then [''0123456789'' ! n]
      else number_to_string (n div 10) @ [''0123456789'' ! (n mod 10)])"

declare bit_length.simps [simp del]
declare number_to_string.simps [simp del]

subsection \<open>\<open>getETA\<close>\<close>

definition hRegex :: regex where
  "hRegex = [(Some ''hr'', [Plus digit]), (None, [Lit CHR '':'']),
             (Some ''min'', [Plus digit]), (None, [Lit CHR '':'']),
             (Some ''sec'', [Plus digit])]"

definition mRegex :: regex where
  "mRegex = [(Some ''min'', [Plus digit]), (None, [Lit CHR '':'']), (Some ''sec'', [Plus digit])]"

text \<open>
  \<open>(hRegex.exec(eta) || mRegex.exec(eta)).groups\<close> raises a \<open>TypeError\<close> when both patterns
  fail, since \<open>null\<close> has no properties. \<open>hr\<close> is \<open>undefined\<close> after a match of \<open>mRegex\<close>.
\<close>

definition getETA :: "string \<Rightarrow> error + string" where
  "getETA eta =
     (case (case exec hRegex eta of Some g \<Rightarrow> Some g | None \<Rightarrow> exec mRegex eta) of
        None \<Rightarrow> Inl TypeError
      | Some groups \<Rightarrow>
          (let hr = (case map_of groups ''hr'' of
                       Some h \<Rightarrow> if h \<noteq> [] then Number h else 0
                     | None \<Rightarrow> 0);
               min = Number (group groups ''min'');
               sec = Number (group groups ''sec'')
           in Inr (if hr \<noteq> 0
                   then number_to_string (if min \<ge> 30 then plus1 hr else hr) @ ''h left''
                   else if min \<noteq> 0
                   then number_to_string (if sec \<ge> 30 then plus1 min else min) @ ''min left''
                   else number_to_string (plus1 sec) @ ''s left'')))"

subsection \<open>\<open>getProgress\<close>\<close>

definition progress_regex :: regex where
  "progress_regex =
     [(Some ''percent'', [Plus digit, Lit CHR ''.'', Plus digit]),
      (None, [Plus (\<lambda>c. \<not> digit c)]),
      (Some ''size'', [Plus digit, Lit CHR ''.'', Plus digit]),
      (Some ''unit'', [Plus word_char]),
      (None, [Plus (\<lambda>c. \<not> digit c)]),
      (Some ''speed'', [Plus digit, Lit CHR ''.'', Plus digit, Plus word_char,
                        Lit CHR ''/'', Lit CHR ''s'']),
      (None, [Plus (\<lambda>c. \<not> digit c)]),
      (Some ''eta'', [Plus (\<lambda>c. digit c \<or> c = CHR '':'')])]"

record progress =
  p_percent :: string
  p_downloaded :: string
  p_size :: string
  p_speed :: string
  p_eta :: string

text \<open>
  What \<open>getProgress\<close> returns: a progress object, the string \<open>'processing'\<close> or the empty
  string.
\<close>

datatype parsed = Progress progress | Processing | Empty

fun includes_str :: "string \<Rightarrow> string \<Rightarrow> bool" where
  "includes_str [] pat = (pat = [])"
| "includes_str (x # xs) pat = (take (length pat) (x # xs) = pat \<or> includes_str xs pat)"

text \<open>
  \<open>((percent / 100) * size).toFixed(2)\<close> is floating-point arithmetic on two decimal
  fractions; its result is the parameter \<open>fixed2\<close>, a function of the two captured texts.
  The properties of the object literal are evaluated in order, so the call of \<open>getETA\<close>
  comes last, and its exception leaves \<open>getProgress\<close> without a result.
\<close>

definition getProgress :: "(string \<Rightarrow> string \<Rightarrow> string) \<Rightarrow> string \<Rightarrow> error + parsed" where
  "getProgress fixed2 data =
     (case exec progress_regex data of
        Some groups \<Rightarrow>
          (let percent = group groups ''percent'';
               size = group groups ''size'';
               unit = group groups ''unit'';
               speed = group groups ''speed'';
               eta = group groups ''eta''
           in case getETA eta of
                Inl e \<Rightarrow> Inl e
              | Inr left \<Rightarrow>
                  Inr (Progress \<lparr>p_percent = percent, p_downloaded = fixed2 percent size,
                                 p_size = size @ unit, p_speed = speed, p_eta = left\<rparr>))
      | None \<Rightarrow> if includes_str data ''[ffmpeg]'' then Inr Processing else Inr Empty)"

text \<open>
  The specification speaks of an ETA text that holds a pair of digits with a colon
  between them; \<open>has_pair\<close> is that property, written from its words. \<open>digits\<close> holds
  of the nonempty runs of digits, the fields of an ETA.
\<close>

fun has_pair :: "string \<Rightarrow> bool" where
  "has_pair (a # b # c # rest) =
     (digit a \<and> b = CHR '':'' \<and> digit c \<or> has_pair (b # c # rest))"
| "has_pair _ = False"

definition digits :: "string \<Rightarrow> bool" where
  "digits s = (s \<noteq> [] \<and> list_all digit s)"

text \<open>
  The text an item can take: the character itself, or a nonempty run of characters of the
  class.
\<close>

fun conforms :: "item \<Rightarrow> string \<Rightarrow> bool" where
  "conforms (Lit c) x = (x = [c])"
| "conforms (Plus p) x = (x \<noteq> [] \<and> list_all p x)"

section \<open>The format ranker\<close>

subsection \<open>Values\<close>

text \<open>
  The values of the metadata that the extractor prints as JSON, and \<open>undefined\<close> for a
  property that is absent. An object is the list of its properties, each name once, in
  the order of the text. A number is given by its text, the string that \<open>String(x)\<close>
  makes of it (\<open>720\<close>, \<open>129.502\<close>, \<open>1e+21\<close>, \<open>NaN\<close>): all that the module does with
  the numbers of a format is to write them into strings, to read them back with
  \<open>parseInt\<close>, and to test them for truth and with \<open>Number.isInteger\<close>, and each of
  these is a function of that text.
\<close>

datatype jsval =
    JUndefined
  | JNull
  | JBool bool
  | JNum string
  | JStr string
  | JArr "jsval list"
  | JObj "(string \<times> jsval) list"

text \<open>Truth of a value, as \<open>if\<close>, \<open>&&\<close> and \<open>||\<close> test it. The text of \<open>-0\<close> is \<open>0\<close>.\<close>

fun truthy :: "jsval \<Rightarrow> bool" where
  "truthy JUndefined = False"
| "truthy JNull = False"
| "truthy (JBool b) = b"
| "truthy (JNum r) = (r \<noteq> ''0'' \<and> r \<noteq> ''NaN'')"
| "truthy (JStr s) = (s \<noteq> [])"
| "truthy (JArr xs) = True"
| "truthy (JObj kvs) = True"

text \<open>\<open>x == undefined\<close> holds for \<open>undefined\<close> and \<open>null\<close> only.\<close>

definition nullish :: "jsval \<Rightarrow> bool" where
  "nullish v = (v = JUndefined \<or> v = JNull)"

fun join_comma :: "string list \<Rightarrow> string" where
  "join_comma [] = []"
| "join_comma [x] = x"
| "join_comma (x # y # rest) = x @ CHR '','' # join_comma (y # rest)"

text \<open>
  The conversion to a string of string concatenation and of template literals. An array
  joins its elements with commas, writing nothing for \<open>null\<close> and \<open>undefined\<close>.
\<close>

fun to_string :: "jsval \<Rightarrow> string" where
  "to_string JUndefined = ''undefined''"
| "to_string JNull = ''null''"
| "to_string (JBool b) = (if b then ''true'' else ''false'')"
| "to_string (JNum r) = r"
| "to_string (JStr s) = s"
| "to_string (JArr xs) =
     join_comma (map (\<lambda>x. if x = JUndefined \<or> x = JNull then [] else to_string x) xs)"
| "to_string (JObj kvs) = ''[object Object]''"

text \<open>
  \<open>Number.isInteger\<close>, read off the text of a number: a text with \<open>e+\<close> is a number from
  \<open>1e21\<close> on, which is whole; one with \<open>e-\<close> is a fraction below \<open>1e-6\<close>; any other is
  whole when it has no decimal point. Values that are not numbers are not integers.
\<close>

fun isInteger :: "jsval \<Rightarrow> bool" where
  "isInteger (JNum r) =
     (r \<noteq> ''NaN'' \<and> r \<noteq> ''Infinity'' \<and> r \<noteq> ''-Infinity'' \<and>
      (if includes_str r ''e+'' then True
       else if includes_str r ''e-'' then False
       else CHR ''.'' \<notin> set r))"
| "isInteger v = False"

subsection \<open>\<open>parseInt\<close>\<close>

text \<open>
  \<open>parseInt(x)\<close> without a radix: the text of \<open>x\<close> without its leading white space, an
  optional sign, an optional \<open>0x\<close> that switches to base 16, and then the longest run of
  digits of the base; \<open>NaN\<close> (here \<open>None\<close>) when that run is empty. The number read is a
  double: \<open>to_double\<close> of the digits' value, and from \<open>2 ^ 1024\<close> on \<open>Infinity\<close>, for which
  \<open>2 ^ 1024\<close> stands.
\<close>

definition white_space :: "char \<Rightarrow> bool" where
  "white_space c = (of_char c \<in> {9, 10, 11, 12, 13, 32, 160 :: nat})"

definition digit_value :: "char \<Rightarrow> nat" where
  "digit_value c =
     (let n = of_char c
      in if 48 \<le> n \<and> n \<le> 57 then n - 48
         else if 97 \<le> n \<and> n \<le> 122 then n - 87
         else if 65 \<le> n \<and> n \<le> 90 then n - 55
         else 36)"

definition parseInt_str :: "string \<Rightarrow> int option" where
  "parseInt_str s =
     (let s1 = dropWhile white_space s;
          (negative, s2) =
            (case s1 of
               [] \<Rightarrow> (False, s1)
             | c # rest \<Rightarrow>
                 if c = CHR ''-'' then (True, rest)
                 else if c = CHR ''+'' then (False, rest)
                 else (False, s1));
          (radix, s3) =
            (case s2 of
               a # b # rest \<Rightarrow>
                 if a = CHR ''0'' \<and> (b = CHR ''x'' \<or> b = CHR ''X'') then (16, rest)
                 else (10, s2)
             | _ \<Rightarrow> (10, s2));
          ds = takeWhile (\<lambda>c. digit_value c < radix) s3;
          magnitude = min (to_double (foldl (\<lambda>n c. radix * n + digit_value c) 0 ds)) (2 ^ 1024)
      in if ds = [] then None
         else Some (if negative then - int magnitude else int magnitude))"

definition parseInt :: "jsval \<Rightarrow> int option" where
  "parseInt v = parseInt_str (to_string v)"

subsection \<open>\<open>getFormats\<close>\<close>

record raw_format =
  acodec :: jsval
  vcodec :: jsval
  abr :: jsval
  width :: jsval
  height :: jsval
  format_id :: jsval

record format =
  isAudioOnly :: bool
  quality :: jsval
  suffix :: string
  code :: jsval

text \<open>
  The body of the \<open>forEach\<close> up to the test: the format that one record of the extractor
  stands for, and its key in the set \<open>seen\<close>.
\<close>

definition to_format :: "raw_format \<Rightarrow> format" where
  "to_format f =
     (let isAudioOnly = (nullish (height f) \<and> nullish (width f) \<and> \<not> nullish (abr f));
          isVideoOnly = (vcodec f \<noteq> JStr ''none'' \<and> acodec f = JStr ''none'');
          quality = (if isAudioOnly then abr f
                     else if truthy (height f) then height f else format_id f);
          suffix = (if isAudioOnly then ''kbps''
                    else if isVideoOnly then ''p''
                    else if isInteger quality then ''p''
                    else '''');
          code = (if isAudioOnly then JStr (''bestaudio[abr<='' @ to_string (abr f) @ '']'')
                  else if isVideoOnly
                  then JStr (''bestvideo[height<='' @ to_string (height f) @
                             '']+bestaudio/best[height<='' @ to_string (height f) @ '']'')
                  else format_id f)
      in \<lparr>isAudioOnly = isAudioOnly, quality = quality, suffix = suffix, code = code\<rparr>)"

definition key :: "format \<Rightarrow> string" where
  "key x = (if isAudioOnly x then ''a'' else ''v'') @ to_string (quality x)"

text \<open>The \<open>forEach\<close> loop, on the pair of the array \<open>formats\<close> and the set \<open>seen\<close>.\<close>

fun forEach :: "raw_format list \<Rightarrow> format list \<times> string set \<Rightarrow> format list \<times> string set" where
  "forEach [] (formats, seen) = (formats, seen)"
| "forEach (f # rest) (formats, seen) =
     (let x = to_format f
      in if truthy (quality x) \<and> key x \<notin> seen
         then forEach rest (formats @ [x], insert (key x) seen)
         else forEach rest (formats, seen))"

text \<open>
  The comparison function. Its result is a number of which \<open>sort\<close> reads the sign only;
  the difference of two infinite values is \<open>NaN\<close>, which \<open>sort\<close> takes for zero, as the
  difference is here.
\<close>

definition compare :: "format \<Rightarrow> format \<Rightarrow> int" where
  "compare x y =
     (case (parseInt (quality x), parseInt (quality y)) of
        (Some a, Some b) \<Rightarrow> b - a
      | (Some a, None) \<Rightarrow> 1
      | (None, Some b) \<Rightarrow> -1
      | (None, None) \<Rightarrow> 0)"

text \<open>
  \<open>Array.prototype.sort\<close> is a stable sort: of two elements it leaves the earlier one
  first unless the comparison function gives a positive number for them. With a
  comparison function that is a consistent ordering, as \<open>compare\<close> is, this determines
  the result, which insertion from the right computes.
\<close>

fun insert_by :: "('a \<Rightarrow> 'a \<Rightarrow> int) \<Rightarrow> 'a \<Rightarrow> 'a list \<Rightarrow> 'a list" where
  "insert_by cmp x [] = [x]"
| "insert_by cmp x (y # ys) = (if cmp x y \<le> 0 then x # y # ys else y # insert_by cmp x ys)"

definition sort_by :: "('a \<Rightarrow> 'a \<Rightarrow> int) \<Rightarrow> 'a list \<Rightarrow> 'a list" where
  "sort_by cmp xs = foldr (insert_by cmp) xs []"

datatype formats_data = Scalar jsval | Array "raw_format list"

definition getFormats :: "formats_data \<Rightarrow> format list" where
  "getFormats data =
     (case data of
        Scalar d \<Rightarrow> [\<lparr>isAudioOnly = False, quality = d, suffix = '''', code = d\<rparr>]
      | Array fs \<Rightarrow> sort_by compare (fst (forEach fs ([], {}))))"




text \<open>
  Three records as the extractor prints them: two with video and sound, and one without
  sizes whose only name for its quality is the identifier \<open>source\<close>.
\<close>

definition sample_720 :: raw_format where
  "sample_720 = \<lparr>acodec = JStr ''mp4a.40.2'', vcodec = JStr ''avc1.64001F'', abr = JNum ''192'',
     width = JNum ''1280'', height = JNum ''720'', format_id = JStr ''22''\<rparr>"

definition sample_360 :: raw_format where
  "sample_360 = \<lparr>acodec = JStr ''mp4a.40.2'', vcodec = JStr ''avc1.42001E'', abr = JNum ''96'',
     width = JNum ''640'', height = JNum ''360'', format_id = JStr ''18''\<rparr>"

definition sample_source :: raw_format where
  "sample_source = \<lparr>acodec = JUndefined, vcodec = JUndefined, abr = JUndefined,
     width = JUndefined, height = JUndefined, format_id = JStr ''source''\<rparr>"

text \<open>
  Two more: a record of the same kind named \<open>hls\<close>, and a record with sound only at an
  average bitrate, which the extractor gives with its decimals.
\<close>

definition sample_hls :: raw_format where
  "sample_hls = \<lparr>acodec = JUndefined, vcodec = JUndefined, abr = JUndefined,
     width = JUndefined, height = JUndefined, format_id = JStr ''hls''\<rparr>"

definition sample_audio :: "string \<Rightarrow> raw_format" where
  "sample_audio rate = \<lparr>acodec = JStr ''opus'', vcodec = JStr ''none'', abr = JNum rate,
     width = JNull, height = JNull, format_id = JStr ''251''\<rparr>"

section \<open>Building a downloadable\<close>

subsection \<open>\<open>getSubtitles\<close>\<close>

text \<open>
  \<open>Object.keys\<close>: the names of the properties of an object, those that are array
  indices (\<open>0\<close>, \<open>1\<close>, ... without leading zeros, below \<open>2 ^ 32 - 1\<close>) first and by rising
  number, the others after them in the order in which they were made; the positions of
  an array or of a string; nothing for a number or a truth value; and a \<open>TypeError\<close> for
  \<open>undefined\<close> and \<open>null\<close>.
\<close>

definition is_array_index :: "string \<Rightarrow> bool" where
  "is_array_index s =
     (digits s \<and> (s = ''0'' \<or> hd s \<noteq> CHR ''0'') \<and> decimal s < 2 ^ 32 - 1)"

fun Object_keys :: "jsval \<Rightarrow> error + string list" where
  "Object_keys JUndefined = Inl TypeError"
| "Object_keys JNull = Inl TypeError"
| "Object_keys (JBool b) = Inr []"
| "Object_keys (JNum r) = Inr []"
| "Object_keys (JStr s) = Inr (map number_to_string [0 ..< length s])"
| "Object_keys (JArr xs) = Inr (map number_to_string [0 ..< length xs])"
| "Object_keys (JObj kvs) =
     Inr (sort_key decimal (filter is_array_index (map fst kvs)) @
          filter (\<lambda>k. \<not> is_array_index k) (map fst kvs))"

definition getSubtitles :: "jsval \<Rightarrow> error + string list" where
  "getSubtitles subtitles = (if subtitles = JNull then Inr [] else Object_keys subtitles)"

subsection \<open>\<open>getDuration\<close>\<close>

text \<open>
  \<open>Math.floor\<close> of a number, from its text: an optional sign, the digits before and
  after the decimal point, and an optional exponent.
\<close>

definition floor_text :: "string \<Rightarrow> int" where
  "floor_text r =
     (let negative = (r \<noteq> [] \<and> hd r = CHR ''-'');
          body = (if negative then tl r else r);
          whole = takeWhile digit body;
          r1 = dropWhile digit body;
          fraction = (case r1 of c # rest \<Rightarrow> if c = CHR ''.'' then takeWhile digit rest else []
                      | [] \<Rightarrow> []);
          r2 = (case r1 of c # rest \<Rightarrow> if c = CHR ''.'' then dropWhile digit rest else r1
                | [] \<Rightarrow> []);
          exponent = (case r2 of
                        e # sign # ds \<Rightarrow>
                          if e = CHR ''e'' \<and> sign = CHR ''+'' then int (decimal ds)
                          else if e = CHR ''e'' \<and> sign = CHR ''-'' then - int (decimal ds)
                          else 0
                      | _ \<Rightarrow> 0);
          mantissa = int (decimal (whole @ fraction));
          scale = exponent - int (length fraction)
      in if 0 \<le> scale
         then (if negative then - (mantissa * 10 ^ nat scale) else mantissa * 10 ^ nat scale)
         else (let q = mantissa div 10 ^ nat (- scale); rest = mantissa mod 10 ^ nat (- scale)
               in if negative then - (q + (if rest = 0 then 0 else 1)) else q))"

text \<open>The remainder \<open>%\<close> has the sign of its first operand.\<close>

definition js_rem :: "int \<Rightarrow> int \<Rightarrow> int" where
  "js_rem a b = sgn a * (\<bar>a\<bar> mod \<bar>b\<bar>)"

definition int_to_string :: "int \<Rightarrow> string" where
  "int_to_string i = (if i < 0 then CHR ''-'' # number_to_string (nat (- i)) else number_to_string (nat i))"

definition pad :: "int \<Rightarrow> string" where
  "pad num = (let s = int_to_string num in replicate (2 - length s) CHR ''0'' @ s)"

text \<open>
  \<open>getDuration(duration)\<close>, for the duration of the metadata: a number, given by its
  text, or \<open>None\<close> when the property is \<open>null\<close> or absent. The quotients of whole numbers
  are those of JavaScript for durations below \<open>2 ^ 40\<close> seconds. An infinite duration
  makes the minutes and the seconds \<open>NaN\<close>.
\<close>

definition getDuration :: "string option \<Rightarrow> string" where
  "getDuration duration =
     (case duration of
        None \<Rightarrow> ''-''
      | Some r \<Rightarrow>
          if r = ''0'' \<or> r = ''NaN'' then ''-''
          else if r = ''Infinity'' \<or> r = ''-Infinity'' then r @ '':NaN:NaN''
          else
            (let total = floor_text r;
                 hours = total div 3600;
                 minutes = js_rem total 3600 div 60;
                 seconds = js_rem (js_rem total 3600) 60
             in if total = 0 then ''-''
                else if hours \<noteq> 0
                then int_to_string hours @ '':'' @ pad minutes @ '':'' @ pad seconds
                else if minutes \<noteq> 0 then pad minutes @ '':'' @ pad seconds
                else ''0:'' @ pad seconds))"

subsection \<open>\<open>createDownloadable\<close>\<close>

text \<open>
  The metadata of one item, with the properties that \<open>createDownloadable\<close> reads:
  \<open>formats\<close> is an array of records or is absent.
\<close>

record metadata =
  m_webpage_url :: jsval
  m_title :: jsval
  m_thumbnail :: jsval
  m_duration :: "string option"
  m_formats :: "raw_format list option"
  m_format_id :: jsval
  m_requested_subtitles :: jsval
  m_playlist :: jsval
  m_playlist_title :: jsval
  m_playlist_index :: jsval
  m_n_entries :: jsval

record playlist_info =
  pl_exists :: bool
  pl_title :: jsval
  pl_index :: jsval
  pl_count :: jsval

text \<open>
  The downloadable. Its \<open>state\<close> is \<open>State.STOPPED\<close> of \<open>./state.js\<close>, a value that the
  functions below take as their first argument; \<open>progress\<close> and \<open>filepath\<close> are \<open>null\<close>.
\<close>

record 'st downloadable =
  url :: jsval
  title :: jsval
  thumbnail :: jsval
  duration :: string
  formats :: "format list"
  formatIndex :: int
  state :: 'st
  progress :: "progress option"
  subtitles :: "string list"
  playlist :: playlist_info
  filepath :: "string option"

fun findIndex :: "('a \<Rightarrow> bool) \<Rightarrow> 'a list \<Rightarrow> int" where
  "findIndex p [] = -1"
| "findIndex p (x # xs) =
     (if p x then 0 else (let i = findIndex p xs in if i = -1 then -1 else i + 1))"

text \<open>
  A chunk of the extractor's output is given by what \<open>JSON.parse\<close> makes of its text:
  a \<open>SyntaxError\<close>, or the metadata.
\<close>

datatype chunk = Malformed | Json metadata

definition JSON_parse :: "chunk \<Rightarrow> error + metadata" where
  "JSON_parse data = (case data of Malformed \<Rightarrow> Inl SyntaxError | Json m \<Rightarrow> Inr m)"

definition createDownloadable :: "'st \<Rightarrow> chunk \<Rightarrow> error + 'st downloadable" where
  "createDownloadable stopped data =
     (case JSON_parse data of
        Inl e \<Rightarrow> Inl e
      | Inr m \<Rightarrow>
          (let newFormats = getFormats (case m_formats m of
                                          Some fs \<Rightarrow> Array fs
                                        | None \<Rightarrow> Scalar (m_format_id m));
               index = findIndex (\<lambda>x. isAudioOnly x = False) newFormats
           in case getSubtitles (m_requested_subtitles m) of
                Inl e \<Rightarrow> Inl e
              | Inr subs \<Rightarrow>
                  Inr \<lparr>url = m_webpage_url m, title = m_title m, thumbnail = m_thumbnail m,
                       duration = getDuration (m_duration m), formats = newFormats,
                       formatIndex = index, state = stopped, progress = None,
                       subtitles = subs,
                       playlist = \<lparr>pl_exists = truthy (m_playlist m),
                                    pl_title = m_playlist_title m,
                                    pl_index = m_playlist_index m,
                                    pl_count = m_n_entries m\<rparr>,
                       filepath = None\<rparr>))"

subsection \<open>\<open>fetchInfo\<close>\<close>

text \<open>
  \<open>fetchInfo\<close> pipes the output of the extractor into a transform stream whose
  \<open>transform\<close> is \<open>this.push(createDownloadable(chunk.toString())); callback()\<close>. A
  transform stream takes the next chunk when the callback of the one before has been
  called. An exception of \<open>createDownloadable\<close> leaves \<open>transform\<close> before the push and
  before the callback, and nothing in the module catches it: the stream has then pushed
  what it pushed for the chunks before, and pushes nothing more. \<open>transform_all\<close> gives
  the objects pushed for a list of chunks, and the exception if one was raised.
\<close>

fun transform_all :: "('c \<Rightarrow> error + 'o) \<Rightarrow> 'c list \<Rightarrow> 'o list \<times> error option" where
  "transform_all f [] = ([], None)"
| "transform_all f (c # cs) =
     (case f c of
        Inl e \<Rightarrow> ([], Some e)
      | Inr x \<Rightarrow> (let (pushed, raised) = transform_all f cs in (x # pushed, raised)))"

definition fetchInfo :: "'st \<Rightarrow> chunk list \<Rightarrow> 'st downloadable list \<times> error option" where
  "fetchInfo stopped chunks = transform_all (createDownloadable stopped) chunks"

text \<open>The metadata of a short clip with one format and English subtitles.\<close>

definition sample_metadata :: metadata where
  "sample_metadata =
     \<lparr>m_webpage_url = JStr ''https://example.com/v/1'', m_title = JStr ''Clip'',
      m_thumbnail = JUndefined, m_duration = Some ''125.4'',
      m_formats = Some [sample_360], m_format_id = JStr ''18'',
      m_requested_subtitles = JObj [(''en'', JObj [(''ext'', JStr ''vtt'')])],
      m_playlist = JNull, m_playlist_title = JNull, m_playlist_index = JNull,
      m_n_entries = JNull\<rparr>"

text \<open>The downloadable of that clip, for a state without content.\<close>

definition sample_downloadable :: "unit downloadable" where
  "sample_downloadable =
     \<lparr>url = JStr ''https://example.com/v/1'', title = JStr ''Clip'',
      thumbnail = JUndefined, duration = ''02:05'',
      formats = [\<lparr>isAudioOnly = False, quality = JNum ''360'', suffix = ''p'',
                  code = JStr ''18''\<rparr>],
      formatIndex = 0, state = (), progress = None, subtitles = [''en''],
      playlist = \<lparr>pl_exists = False, pl_title = JNull, pl_index = JNull,
                   pl_count = JNull\<rparr>,
      filepath = None\<rparr>"

section \<open>Launching a download\<close>

text \<open>
  The settings store \<open>./db.js\<close> is outside this module, which only calls \<open>db.get\<close> on
  it: what the store holds is an argument of the functions below, a record of the values
  of the keys that \<open>download\<close> reads, typed as the specification types them: the limit of
  simultaneous downloads, the two flags, the selected indices with their lists of target
  formats, the selected index of the filename templates with the list of their \<open>key\<close>
  strings, and the download root.
\<close>

record settings =
  simultaneous :: int
  ascii :: bool
  autonumber :: bool
  audioIndex :: int
  videoIndex :: int
  audioFormats :: "string list"
  videoFormats :: "string list"
  filenameIndex :: int
  filenameFormats :: "string list"
  downloadLocation :: string

text \<open>
  What the module takes from its platform: \<open>path.join\<close> on strings, and the two paths
  \<open>ytdlPath\<close> and \<open>ffmpegPath\<close> that it computes from the working directory.
\<close>

record platform =
  path_join :: "string list \<Rightarrow> string"
  ytdlPath :: string
  ffmpegPath :: string

text \<open>
  The argument \<open>{ url, format, playlist }\<close> of \<open>download\<close>: the URL, the format that the
  caller has selected from the \<open>formats\<close> of a downloadable, \<open>undefined\<close> (\<open>None\<close>) when
  there is none at the selected index, and the playlist context of the downloadable.
\<close>

record request =
  r_url :: url
  r_format :: "format option"
  r_playlist :: playlist_info

text \<open>
  What \<open>download\<close> does to the world outside the queue: the message \<open>updateFilepath\<close>
  that \<open>getOutputFormat\<close> dispatches to the store, and the call of \<open>spawn\<close> with the
  program and the array of arguments as they are passed.
\<close>

datatype effect = UpdateFilepath url string | Spawn string "jsval list"

text \<open>
  What \<open>download\<close> reads of the object that \<open>spawn\<close> returns: \<open>child.pid\<close> (0 standing for
  \<open>undefined\<close>, as above) and whether there is a stream \<open>child.stdout\<close> to listen to
  and to pipe from. \<open>spawn\<close> returns a child with a \<open>pid\<close> and a \<open>stdout\<close> when the process
  has started, one with an \<open>undefined\<close> \<open>pid\<close> when the program could not be started, one
  without \<open>stdout\<close> when the system is out of file descriptors, and raises for the
  other errors of the system call: its outcome \<open>error + child\<close> is an argument of
  \<open>download\<close>.
\<close>

record child =
  c_pid :: pid
  c_stdout :: bool

text \<open>\<open>xs[i]\<close> is \<open>undefined\<close> outside the array.\<close>

definition at_index :: "'a list \<Rightarrow> int \<Rightarrow> 'a option" where
  "at_index xs i = (if 0 \<le> i \<and> i < int (length xs) then Some (xs ! nat i) else None)"

fun is_string :: "jsval \<Rightarrow> bool" where
  "is_string (JStr s) = True"
| "is_string v = False"

text \<open>\<open>path.join\<close> raises a \<open>TypeError\<close> for an argument that is not a string.\<close>

definition join :: "platform \<Rightarrow> jsval list \<Rightarrow> error + string" where
  "join pf parts =
     (if list_all is_string parts then Inr (path_join pf (map to_string parts))
      else Inl TypeError)"

definition getAVOptions :: "settings \<Rightarrow> bool \<Rightarrow> jsval list" where
  "getAVOptions db isAudio =
     (let index = (if isAudio then audioIndex db else videoIndex db);
          fmt = at_index (if isAudio then audioFormats db else videoFormats db) index;
          target = (case fmt of Some f \<Rightarrow> JStr f | None \<Rightarrow> JUndefined);
          options = (if isAudio then [JStr ''--extract-audio'', JStr ''--audio-format'', target]
                     else [JStr ''--recode-video'', target])
      in if fmt = Some ''default'' then [] else options)"

text \<open>
  \<open>getOutputFormat({ url, playlist })\<close> returns the output template, after the dispatch
  of the path pattern. \<open>db.get('filenameFormats')[index].key\<close> raises when there is no
  template at the index.
\<close>

definition getOutputFormat :: "platform \<Rightarrow> settings \<Rightarrow> url \<Rightarrow> playlist_info \<Rightarrow> error + effect \<times> string" where
  "getOutputFormat pf db u pl =
     (case at_index (filenameFormats db) (filenameIndex db) of
        None \<Rightarrow> Inl TypeError
      | Some k \<Rightarrow>
          (case (if pl_exists pl
                 then join pf [pl_title pl,
                        JStr (if autonumber db
                              then to_string (pl_index pl) @
                                   (if ascii db then ''_'' else '' - '') @ k
                              else k)]
                 else Inr k) of
             Inl e \<Rightarrow> Inl e
           | Inr name \<Rightarrow>
               (case (if pl_exists pl
                      then join pf [JStr (downloadLocation db), pl_title pl, JStr ''*'']
                      else join pf [JStr (downloadLocation db), JStr ''*'']) of
                  Inl e \<Rightarrow> Inl e
                | Inr pattern \<Rightarrow>
                    (case join pf [JStr (downloadLocation db), JStr name] of
                       Inl e \<Rightarrow> Inl e
                     | Inr template \<Rightarrow> Inr (UpdateFilepath u pattern, template)))))"

text \<open>
  \<open>generateArgs({ url, format, playlist })\<close>. The array literal reads \<open>format.code\<close>
  first, which raises for a format that is \<open>undefined\<close>.
\<close>

definition generateArgs :: "platform \<Rightarrow> settings \<Rightarrow> request \<Rightarrow> error + effect list \<times> jsval list" where
  "generateArgs pf db r =
     (case r_format r of
        None \<Rightarrow> Inl TypeError
      | Some fmt \<Rightarrow>
          (case getOutputFormat pf db (r_url r) (r_playlist r) of
             Inl e \<Rightarrow> Inl e
           | Inr (dispatched, template) \<Rightarrow>
               Inr ([dispatched],
                    [JStr ''--ffmpeg-location'', JStr (ffmpegPath pf), JStr ''-f'', code fmt,
                     JStr ''-o'', JStr template] @
                    getAVOptions db (isAudioOnly fmt) @
                    (if ascii db then [JStr ''--restrict-filenames''] else []) @
                    [JStr (r_url r)])))"

text \<open>
  What \<open>download\<close> returns: \<open>null\<close> (here \<open>None\<close>) or the transform stream fed by the
  standard output of the child it has spawned, named here by the child's process
  identifier.
\<close>

datatype stream = ProgressStream pid

text \<open>
  \<open>download({ url, format, playlist })\<close>. The limit is \<open>db.get('simultaneous')\<close>. The
  value is what the call returns or the exception it raises, the effects in their order,
  and the state it leaves. Below the limit \<open>generateArgs\<close> runs first, then \<open>spawn\<close>:
  an exception of either leaves \<open>download\<close> before \<open>active.set\<close>. After
  \<open>active.set(url, child.pid)\<close> the listener is put on \<open>child.stdout\<close>, which raises
  a \<open>TypeError\<close> when the child has no such stream.
\<close>

definition download
  :: "platform \<Rightarrow> settings \<Rightarrow> error + child \<Rightarrow> request \<Rightarrow> scheduler
      \<Rightarrow> (error + stream option) \<times> effect list \<times> scheduler" where
  "download pf db spawned r s =
     (if active_size s \<ge> simultaneous db
      then (Inr None, [], s\<lparr>queue := queue s @ [r_url r]\<rparr>)
      else (case generateArgs pf db r of
              Inl e \<Rightarrow> (Inl e, [], s)
            | Inr (dispatched, args) \<Rightarrow>
                (case spawned of
                   Inl e \<Rightarrow> (Inl e, dispatched @ [Spawn (ytdlPath pf) args], s)
                 | Inr c \<Rightarrow>
                     (if c_stdout c then Inr (Some (ProgressStream (c_pid c))) else Inl TypeError,
                      dispatched @ [Spawn (ytdlPath pf) args],
                      s\<lparr>active := fmupd (r_url r) (c_pid c) (active s)\<rparr>))))"

text \<open>The state that a call of \<open>download\<close> leaves, whether it returns or raises.\<close>

definition download_state
  :: "platform \<Rightarrow> settings \<Rightarrow> error + child \<Rightarrow> request \<Rightarrow> scheduler \<Rightarrow> scheduler" where
  "download_state pf db spawned r s = snd (snd (download pf db spawned r s))"

text \<open>
  The requests whose arguments can be built, in the words of the specification: there
  is a format, there is a filename template at the selected index, and the title of the
  playlist is a string if the item belongs to one.
\<close>

definition launchable :: "settings \<Rightarrow> request \<Rightarrow> bool" where
  "launchable db r =
     (r_format r \<noteq> None \<and>
      0 \<le> filenameIndex db \<and> filenameIndex db < int (length (filenameFormats db)) \<and>
      (pl_exists (r_playlist r) \<longrightarrow> is_string (pl_title (r_playlist r))))"

text \<open>
  Settings and a platform to run the examples on: one template, no conversion, and a
  \<open>path.join\<close> that puts a slash between its arguments, as the real one does for plain
  names. \<open>sample_request\<close> asks for the 360p format of a URL outside any playlist, and
  \<open>started p\<close> is the outcome of a \<open>spawn\<close> that has started process \<open>p\<close>.
\<close>

fun join_slash :: "string list \<Rightarrow> string" where
  "join_slash [] = ''.''"
| "join_slash [x] = x"
| "join_slash (x # y # rest) = x @ CHR ''/'' # join_slash (y # rest)"

definition sample_platform :: platform where
  "sample_platform = \<lparr>path_join = join_slash, ytdlPath = ''resources/youtube-dl'',
     ffmpegPath = ''resources/ffmpeg''\<rparr>"

definition sample_settings :: "int \<Rightarrow> settings" where
  "sample_settings limit =
     \<lparr>simultaneous = limit, ascii = False, autonumber = False, audioIndex = 0, videoIndex = 0,
      audioFormats = [''default'', ''mp3''], videoFormats = [''default'', ''mp4''],
      filenameIndex = 0, filenameFormats = [''%(title)s.%(ext)s''],
      downloadLocation = ''/home/user/Downloads''\<rparr>"

definition sample_request :: "url \<Rightarrow> request" where
  "sample_request u =
     \<lparr>r_url = u, r_format = Some (to_format sample_360),
      r_playlist = \<lparr>pl_exists = False, pl_title = JNull, pl_index = JNull, pl_count = JNull\<rparr>\<rparr>"

definition started :: "pid \<Rightarrow> error + child" where
  "started p = Inr \<lparr>c_pid = p, c_stdout = True\<rparr>"

section \<open>Properties of the queue\<close>

lemma indexOf_ge: "indexOf xs x \<ge> -1"
  by (induction xs) (auto simp: Let_def)

lemma indexOf_absent: "indexOf xs x = -1 \<longleftrightarrow> x \<notin> set xs"
proof (induction xs)
  case Nil
  then show ?case by simp
next
  case (Cons y ys)
  have "indexOf ys x \<ge> -1" by (rule indexOf_ge)
  then have "indexOf ys x + 1 \<noteq> -1" by linarith
  with Cons show ?case by (simp add: Let_def)
qed

lemma splice1_indexOf: "x \<in> set xs \<Longrightarrow> splice1 (nat (indexOf xs x)) xs = remove1 x xs"
proof (induction xs)
  case Nil
  then show ?case by simp
next
  case (Cons y ys)
  show ?case
  proof (cases "y = x")
    case True
    then show ?thesis by (simp add: splice1_def)
  next
    case False
    with Cons.prems have mem: "x \<in> set ys" by simp
    then have "indexOf ys x \<noteq> -1" by (simp add: indexOf_absent)
    moreover have "indexOf ys x \<ge> -1" by (rule indexOf_ge)
    ultimately have nn: "indexOf ys x \<ge> 0" by linarith
    then have "nat (indexOf ys x + 1) = Suc (nat (indexOf ys x))" by simp
    with False Cons.IH [OF mem] \<open>indexOf ys x \<noteq> -1\<close> show ?thesis
      by (simp add: splice1_def Let_def)
  qed
qed

lemma count_remove1_twice: "count_list (remove1 u (xs @ [u, u])) u = Suc (count_list xs u)"
  by (induction xs) simp_all

lemma pause_queue: "queue (snd (pause u s)) = remove1 u (queue s)"
proof (cases "u \<in> set (queue s)")
  case True
  then show ?thesis
    by (simp add: pause_def Let_def indexOf_absent splice1_indexOf)
next
  case False
  then show ?thesis
    by (simp add: pause_def Let_def indexOf_absent remove1_idem)
qed

text \<open>
  When \<open>generateArgs\<close> raises, and what \<open>download\<close> does in each of its cases.
\<close>

lemmas launch_eval = download_def download_state_def generateArgs_def getOutputFormat_def
  getAVOptions_def join_def at_index_def launchable_def started_def sample_platform_def
  sample_settings_def sample_request_def to_format_def sample_360_def nullish_def
  active_size_def initial_def fcard_finsert_if fcard_fempty Let_def

lemma getOutputFormat_raises:
  "getOutputFormat pf db u pl = Inl e \<longleftrightarrow>
     e = TypeError \<and>
     \<not> (0 \<le> filenameIndex db \<and> filenameIndex db < int (length (filenameFormats db)) \<and>
        (pl_exists pl \<longrightarrow> is_string (pl_title pl)))"
  by (auto simp: getOutputFormat_def join_def at_index_def split: option.splits sum.splits)

lemma generateArgs_raises:
  "generateArgs pf db r = Inl e \<longleftrightarrow> e = TypeError \<and> \<not> launchable db r"
proof (cases "r_format r")
  case None
  then show ?thesis by (auto simp: generateArgs_def launchable_def)
next
  case (Some fmt)
  then show ?thesis
    using getOutputFormat_raises [of pf db "r_url r" "r_playlist r" e]
    by (auto simp: generateArgs_def launchable_def split: sum.splits)
qed

lemma generateArgs_returns:
  "launchable db r \<Longrightarrow> \<exists>dispatched args. generateArgs pf db r = Inr (dispatched, args)"
  using generateArgs_raises [of pf db r]
  by (cases "generateArgs pf db r") auto

lemma generateArgs_TypeError:
  "\<not> launchable db r \<Longrightarrow> generateArgs pf db r = Inl TypeError"
  using generateArgs_raises [of pf db r TypeError] by simp

lemma download_full:
  "simultaneous db \<le> active_size s \<Longrightarrow>
     download pf db sp r s = (Inr None, [], s\<lparr>queue := queue s @ [r_url r]\<rparr>)"
  by (simp add: download_def)

lemma download_started:
  assumes "active_size s < simultaneous db" "launchable db r"
  shows "fst (download pf db (Inr c) r s) =
           (if c_stdout c then Inr (Some (ProgressStream (c_pid c))) else Inl TypeError)"
    and "download_state pf db (Inr c) r s = s\<lparr>active := fmupd (r_url r) (c_pid c) (active s)\<rparr>"
  using assms generateArgs_returns [OF assms(2), of pf]
  by (auto simp: download_def download_state_def)

lemma download_spawn_raises:
  assumes "active_size s < simultaneous db" "launchable db r"
  shows "fst (download pf db (Inl e) r s) = Inl e"
    and "download_state pf db (Inl e) r s = s"
  using assms generateArgs_returns [OF assms(2), of pf]
  by (auto simp: download_def download_state_def)

lemma download_no_args:
  assumes "active_size s < simultaneous db" "\<not> launchable db r"
  shows "download pf db sp r s = (Inl TypeError, [], s)"
  using assms generateArgs_TypeError [OF assms(2), of pf]
  by (simp add: download_def)

text \<open>
  Claim C1 says that every request made below the limit is launched. The first request
  of a session, for a downloadable that has no format at the selected index
  (\<open>formats[formatIndex]\<close> is \<open>undefined\<close>), is below the limit of 2 and is not launched:
  \<open>generateArgs\<close> raises a \<open>TypeError\<close> on \<open>format.code\<close>, no stream is returned and the
  active set stays empty.
\<close>

theorem download_counterexample:
  "active_size initial < simultaneous (sample_settings 2) \<and>
   download sample_platform (sample_settings 2) (started 41)
     ((sample_request ''a'')\<lparr>r_format := None\<rparr>) initial = (Inl TypeError, [], initial)"
  by (simp add: launch_eval)

text \<open>
  Claim C1 as the code has it. A request made while the active set holds fewer URLs than
  the limit \<open>db.get('simultaneous')\<close> is launched when its arguments can be built and
  \<open>spawn\<close> returns a child with an output stream: the stream of the child is returned, the
  URL is in the active set afterwards (bound to the child's process identifier), every
  other entry and the wait list are as before. When the arguments cannot be built
  \<open>download\<close> raises a \<open>TypeError\<close>, and when \<open>spawn\<close> raises \<open>download\<close> raises the same
  exception: in both cases the active set and the wait list are as before. When \<open>spawn\<close>
  returns a child without an output stream, \<open>download\<close> raises a \<open>TypeError\<close> after it has
  bound the URL in the active set. At the limit or above it \<open>null\<close> is returned, the URL is
  appended at the end of the wait list and the active set is unchanged. With limit 2,
  three requests in a row from the initial state, the first two with arguments that can
  be built, for different URLs and with children that have an output stream, leave
  exactly those two running and the third waiting.
\<close>

theorem download_admission:
  "(active_size s < simultaneous db \<and> launchable db r \<and> c_stdout c \<longrightarrow>
      fst (download pf db (Inr c) r s) = Inr (Some (ProgressStream (c_pid c))) \<and>
      r_url r |\<in>| fmdom (active (download_state pf db (Inr c) r s)) \<and>
      fmlookup (active (download_state pf db (Inr c) r s)) (r_url r) = Some (c_pid c) \<and>
      (\<forall>v. v \<noteq> r_url r \<longrightarrow>
         fmlookup (active (download_state pf db (Inr c) r s)) v = fmlookup (active s) v) \<and>
      queue (download_state pf db (Inr c) r s) = queue s) \<and>
   (active_size s < simultaneous db \<and> \<not> launchable db r \<longrightarrow>
      download pf db sp r s = (Inl TypeError, [], s)) \<and>
   (active_size s < simultaneous db \<and> launchable db r \<longrightarrow>
      fst (download pf db (Inl e) r s) = Inl e \<and>
      download_state pf db (Inl e) r s = s) \<and>
   (active_size s < simultaneous db \<and> launchable db r \<and> \<not> c_stdout c \<longrightarrow>
      fst (download pf db (Inr c) r s) = Inl TypeError \<and>
      download_state pf db (Inr c) r s = s\<lparr>active := fmupd (r_url r) (c_pid c) (active s)\<rparr>) \<and>
   (\<not> active_size s < simultaneous db \<longrightarrow>
      fst (download pf db sp r s) = Inr None \<and>
      queue (download_state pf db sp r s) = queue s @ [r_url r] \<and>
      active (download_state pf db sp r s) = active s) \<and>
   (\<forall>r1 r2 r3 c1 c2 sp3.
      simultaneous db = 2 \<and> launchable db r1 \<and> launchable db r2 \<and> r_url r1 \<noteq> r_url r2 \<and>
      c_stdout c1 \<and> c_stdout c2 \<longrightarrow>
      active_size (download_state pf db sp3 r3
        (download_state pf db (Inr c2) r2 (download_state pf db (Inr c1) r1 initial))) = 2 \<and>
      fmdom (active (download_state pf db sp3 r3
        (download_state pf db (Inr c2) r2 (download_state pf db (Inr c1) r1 initial))))
        = {|r_url r1, r_url r2|} \<and>
      queue (download_state pf db sp3 r3
        (download_state pf db (Inr c2) r2 (download_state pf db (Inr c1) r1 initial))) = [r_url r3])"
proof -
  have a: "active_size s < simultaneous db \<and> launchable db r \<and> c_stdout c \<longrightarrow>
      fst (download pf db (Inr c) r s) = Inr (Some (ProgressStream (c_pid c))) \<and>
      r_url r |\<in>| fmdom (active (download_state pf db (Inr c) r s)) \<and>
      fmlookup (active (download_state pf db (Inr c) r s)) (r_url r) = Some (c_pid c) \<and>
      (\<forall>v. v \<noteq> r_url r \<longrightarrow>
         fmlookup (active (download_state pf db (Inr c) r s)) v = fmlookup (active s) v) \<and>
      queue (download_state pf db (Inr c) r s) = queue s"
    by (simp add: download_started)
  have b: "active_size s < simultaneous db \<and> \<not> launchable db r \<longrightarrow>
      download pf db sp r s = (Inl TypeError, [], s)"
    by (simp add: download_no_args)
  have c: "active_size s < simultaneous db \<and> launchable db r \<longrightarrow>
      fst (download pf db (Inl e) r s) = Inl e \<and> download_state pf db (Inl e) r s = s"
    by (simp add: download_spawn_raises)
  have d: "active_size s < simultaneous db \<and> launchable db r \<and> \<not> c_stdout c \<longrightarrow>
      fst (download pf db (Inr c) r s) = Inl TypeError \<and>
      download_state pf db (Inr c) r s = s\<lparr>active := fmupd (r_url r) (c_pid c) (active s)\<rparr>"
    by (simp add: download_started)
  have e: "\<not> active_size s < simultaneous db \<longrightarrow>
      fst (download pf db sp r s) = Inr None \<and>
      queue (download_state pf db sp r s) = queue s @ [r_url r] \<and>
      active (download_state pf db sp r s) = active s"
    by (simp add: download_full download_state_def)
  have f: "active_size (download_state pf db sp3 r3
        (download_state pf db (Inr c2) r2 (download_state pf db (Inr c1) r1 initial))) = 2 \<and>
      fmdom (active (download_state pf db sp3 r3
        (download_state pf db (Inr c2) r2 (download_state pf db (Inr c1) r1 initial))))
        = {|r_url r1, r_url r2|} \<and>
      queue (download_state pf db sp3 r3
        (download_state pf db (Inr c2) r2 (download_state pf db (Inr c1) r1 initial))) = [r_url r3]"
    if lim: "simultaneous db = 2" and l1: "launchable db r1" and l2: "launchable db r2"
      and ne: "r_url r1 \<noteq> r_url r2" for r1 r2 r3 c1 c2 sp3
  proof -
    let ?s1 = "download_state pf db (Inr c1) r1 initial"
    let ?s2 = "download_state pf db (Inr c2) r2 ?s1"
    let ?s3 = "download_state pf db sp3 r3 ?s2"
    have "active_size initial < simultaneous db"
      by (simp add: lim active_size_def initial_def fcard_fempty)
    then have s1: "?s1 = \<lparr>active = fmupd (r_url r1) (c_pid c1) fmempty, queue = []\<rparr>"
      by (simp add: download_started(2) [OF _ l1] initial_def)
    then have "active_size ?s1 < simultaneous db"
      by (simp add: lim active_size_def fcard_finsert_if fcard_fempty)
    then have s2: "?s2 = \<lparr>active = fmupd (r_url r2) (c_pid c2) (fmupd (r_url r1) (c_pid c1) fmempty),
        queue = []\<rparr>"
      by (simp add: download_started(2) [OF _ l2] s1)
    have n2: "active_size ?s2 = 2"
      using ne by (simp add: s2 active_size_def fcard_finsert_if fcard_fempty)
    then have s3: "?s3 = ?s2\<lparr>queue := queue ?s2 @ [r_url r3]\<rparr>"
      by (simp add: download_full lim download_state_def [of pf db sp3 r3])
    have "active_size ?s3 = 2"
      using n2 unfolding s3 by (simp add: active_size_def)
    moreover have "fmdom (active ?s3) = {|r_url r1, r_url r2|}"
      unfolding s3 by (auto simp: s2)
    moreover have "queue ?s3 = [r_url r3]"
      unfolding s3 by (simp add: s2)
    ultimately show ?thesis by (intro conjI)
  qed
  from f have g: "\<forall>r1 r2 r3 c1 c2 sp3.
      simultaneous db = 2 \<and> launchable db r1 \<and> launchable db r2 \<and> r_url r1 \<noteq> r_url r2 \<and>
      c_stdout c1 \<and> c_stdout c2 \<longrightarrow>
      active_size (download_state pf db sp3 r3
        (download_state pf db (Inr c2) r2 (download_state pf db (Inr c1) r1 initial))) = 2 \<and>
      fmdom (active (download_state pf db sp3 r3
        (download_state pf db (Inr c2) r2 (download_state pf db (Inr c1) r1 initial))))
        = {|r_url r1, r_url r2|} \<and>
      queue (download_state pf db sp3 r3
        (download_state pf db (Inr c2) r2 (download_state pf db (Inr c1) r1 initial))) = [r_url r3]"
    by blast
  from a b c d e g show ?thesis by (intro conjI)
qed

text \<open>
  The admission rule at concrete requests: one launched, one that cannot be built, one
  whose \<open>spawn\<close> raises, one queued, and the run of three.
\<close>

theorem download_admission_witness:
  "active_size initial < simultaneous (sample_settings 2) \<and>
   launchable (sample_settings 2) (sample_request ''a'') \<and>
   fst (download sample_platform (sample_settings 2) (started 41) (sample_request ''a'') initial)
     = Inr (Some (ProgressStream 41)) \<and>
   \<not> launchable (sample_settings 2) ((sample_request ''a'')\<lparr>r_format := None\<rparr>) \<and>
   download_state sample_platform (sample_settings 2) (Inl SyntaxError) (sample_request ''a'') initial
     = initial \<and>
   \<not> active_size (download_state sample_platform (sample_settings 1) (started 41)
        (sample_request ''a'') initial) < simultaneous (sample_settings 1) \<and>
   fst (download sample_platform (sample_settings 1) (started 42) (sample_request ''b'')
     (download_state sample_platform (sample_settings 1) (started 41) (sample_request ''a'') initial))
     = Inr None \<and>
   queue (download_state sample_platform (sample_settings 2) (started 43) (sample_request ''c'')
     (download_state sample_platform (sample_settings 2) (started 42) (sample_request ''b'')
       (download_state sample_platform (sample_settings 2) (started 41) (sample_request ''a'')
          initial))) = [''c'']"
  using download_admission [where s = initial and db = "sample_settings 2"
      and r = "sample_request ''a''" and c = "\<lparr>c_pid = 41, c_stdout = True\<rparr>"
      and pf = sample_platform and sp = "started 41" and e = SyntaxError]
    download_admission [where s = "download_state sample_platform (sample_settings 1)
        (started 41) (sample_request ''a'') initial" and db = "sample_settings 1"
      and r = "sample_request ''b''" and c = "\<lparr>c_pid = 42, c_stdout = True\<rparr>"
      and pf = sample_platform and sp = "started 42" and e = SyntaxError]
  by (simp add: launch_eval)

text \<open>
  Claim C2. When the output stream of the child for a URL ends, the URL is no longer in
  the active set and no other entry is touched; the front of the wait list is popped and
  emitted as the \<open>dequeue\<close> event. On an empty wait list the event carries
  \<open>undefined\<close> and the list stays empty. None of this depends on the URL having been
  in the active set: if it was not, the active set is unchanged and the wait list is
  popped all the same.
\<close>

theorem on_end_advances:
  "u |\<notin>| fmdom (active (snd (on_end u s))) \<and>
   (\<forall>v. v \<noteq> u \<longrightarrow> fmlookup (active (snd (on_end u s))) v = fmlookup (active s) v) \<and>
   (queue s = [] \<longrightarrow> fst (on_end u s) = Dequeue None \<and> queue (snd (on_end u s)) = []) \<and>
   (\<forall>q rest. queue s = q # rest \<longrightarrow>
      fst (on_end u s) = Dequeue (Some q) \<and> queue (snd (on_end u s)) = rest) \<and>
   (u |\<notin>| fmdom (active s) \<longrightarrow> active (snd (on_end u s)) = active s)"
  by (auto simp: on_end_def shift_def Let_def fmdrop_idle split: list.splits)

text \<open>End of stream for a running URL, on an empty wait list, and for a URL that is not running.\<close>

theorem on_end_advances_witness:
  "''x'' \<noteq> ''a'' \<and>
   fmlookup (active (snd (on_end ''a'' \<lparr>active = fmupd ''x'' 9 (fmupd ''a'' 7 fmempty), queue = [''b'', ''c'']\<rparr>))) ''x'' = Some 9 \<and>
   fst (on_end ''a'' \<lparr>active = fmupd ''x'' 9 (fmupd ''a'' 7 fmempty), queue = [''b'', ''c'']\<rparr>) = Dequeue (Some ''b'') \<and>
   queue (snd (on_end ''a'' \<lparr>active = fmupd ''x'' 9 (fmupd ''a'' 7 fmempty), queue = [''b'', ''c'']\<rparr>)) = [''c''] \<and>
   fst (on_end ''a'' initial) = Dequeue None \<and> queue (snd (on_end ''a'' initial)) = [] \<and>
   ''a'' |\<notin>| fmdom (active \<lparr>active = fmupd ''x'' 9 fmempty, queue = [''b'']\<rparr>) \<and>
   active (snd (on_end ''a'' \<lparr>active = fmupd ''x'' 9 fmempty, queue = [''b'']\<rparr>)) = fmupd ''x'' 9 fmempty \<and>
   fst (on_end ''a'' \<lparr>active = fmupd ''x'' 9 fmempty, queue = [''b'']\<rparr>) = Dequeue (Some ''b'')"
  using on_end_advances [of "''a''" "\<lparr>active = fmupd ''x'' 9 (fmupd ''a'' 7 fmempty), queue = [''b'', ''c'']\<rparr>"]
    on_end_advances [of "''a''" initial]
    on_end_advances [of "''a''" "\<lparr>active = fmupd ''x'' 9 fmempty, queue = [''b'']\<rparr>"]
  by (simp add: initial_def)

text \<open>
  Claim C5 says that cancelling a URL found in the wait list has no process side effects,
  and that a signal is sent only otherwise. Two requests for the same URL under limit 1
  leave it both running and waiting; cancelling it then removes it from the wait list and
  also kills the running child.
\<close>

theorem pause_counterexample:
  "''a'' \<in> set (queue (download_state sample_platform (sample_settings 1) (started 8)
      (sample_request ''a'')
      (download_state sample_platform (sample_settings 1) (started 7) (sample_request ''a'')
         initial))) \<and>
   fst (pause ''a'' (download_state sample_platform (sample_settings 1) (started 8)
      (sample_request ''a'')
      (download_state sample_platform (sample_settings 1) (started 7) (sample_request ''a'')
         initial))) = [Kill 7]"
  by (simp add: pause_def launch_eval)

text \<open>
  Claim C5 as the code has it. The two steps of \<open>pause\<close> are independent: the first
  occurrence of the URL in the wait list, if there is one, is removed; and whenever the
  active set binds the URL to a nonzero process identifier, a termination signal is sent
  to that identifier, whether or not the URL was also waiting. The active set itself is
  never changed. A URL that is neither waiting nor running makes \<open>pause\<close> do nothing.
\<close>

theorem pause_cancels:
  "active (snd (pause u s)) = active s \<and>
   queue (snd (pause u s)) = remove1 u (queue s) \<and>
   (u \<notin> set (queue s) \<longrightarrow> queue (snd (pause u s)) = queue s) \<and>
   (\<forall>p. fmlookup (active s) u = Some p \<and> p \<noteq> 0 \<longrightarrow> fst (pause u s) = [Kill p]) \<and>
   (u |\<notin>| fmdom (active s) \<longrightarrow> fst (pause u s) = []) \<and>
   (u \<notin> set (queue s) \<and> u |\<notin>| fmdom (active s) \<longrightarrow> pause u s = ([], s))"
proof -
  have q: "queue (snd (pause u s)) = remove1 u (queue s)" by (rule pause_queue)
  have a: "active (snd (pause u s)) = active s" by (simp add: pause_def Let_def)
  have k: "\<forall>p. fmlookup (active s) u = Some p \<and> p \<noteq> 0 \<longrightarrow> fst (pause u s) = [Kill p]"
    by (simp add: pause_def Let_def)
  have n: "u |\<notin>| fmdom (active s) \<longrightarrow> fst (pause u s) = []"
    by (auto simp: pause_def Let_def fmlookup_dom_iff split: option.splits)
  have i: "u \<notin> set (queue s) \<and> u |\<notin>| fmdom (active s) \<longrightarrow> pause u s = ([], s)"
    by (auto simp: pause_def Let_def indexOf_absent fmlookup_dom_iff split: option.splits)
  from q a k n i show ?thesis by (simp add: remove1_idem)
qed

text \<open>A URL waiting twice and running, a URL only waiting, and a URL unknown to the queue.\<close>

theorem pause_cancels_witness:
  "fmlookup (active \<lparr>active = fmupd ''a'' 7 fmempty, queue = [''b'', ''a'', ''a'']\<rparr>) ''a'' = Some 7 \<and>
   (7::nat) \<noteq> 0 \<and>
   fst (pause ''a'' \<lparr>active = fmupd ''a'' 7 fmempty, queue = [''b'', ''a'', ''a'']\<rparr>) = [Kill 7] \<and>
   queue (snd (pause ''a'' \<lparr>active = fmupd ''a'' 7 fmempty, queue = [''b'', ''a'', ''a'']\<rparr>)) = [''b'', ''a''] \<and>
   active (snd (pause ''a'' \<lparr>active = fmupd ''a'' 7 fmempty, queue = [''b'', ''a'', ''a'']\<rparr>)) = fmupd ''a'' 7 fmempty \<and>
   ''b'' |\<notin>| fmdom (active \<lparr>active = fmupd ''a'' 7 fmempty, queue = [''b'', ''a'', ''a'']\<rparr>) \<and>
   fst (pause ''b'' \<lparr>active = fmupd ''a'' 7 fmempty, queue = [''b'', ''a'', ''a'']\<rparr>) = [] \<and>
   ''z'' \<notin> set (queue \<lparr>active = fmupd ''a'' 7 fmempty, queue = [''b'', ''a'', ''a'']\<rparr>) \<and>
   ''z'' |\<notin>| fmdom (active \<lparr>active = fmupd ''a'' 7 fmempty, queue = [''b'', ''a'', ''a'']\<rparr>) \<and>
   pause ''z'' \<lparr>active = fmupd ''a'' 7 fmempty, queue = [''b'', ''a'', ''a'']\<rparr>
     = ([], \<lparr>active = fmupd ''a'' 7 fmempty, queue = [''b'', ''a'', ''a'']\<rparr>)"
  using pause_cancels [of "''a''" "\<lparr>active = fmupd ''a'' 7 fmempty, queue = [''b'', ''a'', ''a'']\<rparr>"]
    pause_cancels [of "''b''" "\<lparr>active = fmupd ''a'' 7 fmempty, queue = [''b'', ''a'', ''a'']\<rparr>"]
    pause_cancels [of "''z''" "\<lparr>active = fmupd ''a'' 7 fmempty, queue = [''b'', ''a'', ''a'']\<rparr>"]
  by simp

text \<open>
  Claim C9. Two requests for the same URL made while the active set is at capacity put
  the URL on the wait list twice, and leave the active set alone; one cancellation
  afterwards removes the first occurrence only, so that the URL is still queued, once
  more than it was before the two requests. This holds whatever the formats and the
  playlists of the two requests are: at capacity \<open>download\<close> looks at the URL only.
\<close>

theorem queued_twice:
  "simultaneous db \<le> active_size s \<and> r_url r1 = u \<and> r_url r2 = u \<longrightarrow>
     fst (download pf db sp1 r1 s) = Inr None \<and>
     fst (download pf db sp2 r2 (download_state pf db sp1 r1 s)) = Inr None \<and>
     queue (download_state pf db sp2 r2 (download_state pf db sp1 r1 s)) = queue s @ [u, u] \<and>
     active (download_state pf db sp2 r2 (download_state pf db sp1 r1 s)) = active s \<and>
     count_list (queue (snd (pause u
         (download_state pf db sp2 r2 (download_state pf db sp1 r1 s))))) u
       = Suc (count_list (queue s) u) \<and>
     (u \<notin> set (queue s) \<longrightarrow>
        queue (snd (pause u (download_state pf db sp2 r2 (download_state pf db sp1 r1 s))))
          = queue s @ [u]) \<and>
     (u \<in> set (queue s) \<longrightarrow>
        queue (snd (pause u (download_state pf db sp2 r2 (download_state pf db sp1 r1 s))))
          = remove1 u (queue s) @ [u, u])"
proof
  assume h: "simultaneous db \<le> active_size s \<and> r_url r1 = u \<and> r_url r2 = u"
  then have full: "simultaneous db \<le> active_size s" and u1: "r_url r1 = u" and u2: "r_url r2 = u"
    by simp_all
  let ?s1 = "download_state pf db sp1 r1 s"
  let ?s2 = "download_state pf db sp2 r2 ?s1"
  from full have d1: "download pf db sp1 r1 s = (Inr None, [], s\<lparr>queue := queue s @ [u]\<rparr>)"
    by (simp add: download_full u1)
  then have s1: "?s1 = s\<lparr>queue := queue s @ [u]\<rparr>"
    by (simp add: download_state_def)
  then have "active_size ?s1 = active_size s" by (simp add: active_size_def)
  with full have "simultaneous db \<le> active_size ?s1" by simp
  then have d2: "download pf db sp2 r2 ?s1 = (Inr None, [], ?s1\<lparr>queue := queue ?s1 @ [u]\<rparr>)"
    by (simp add: download_full u2)
  then have s2: "?s2 = s\<lparr>queue := queue s @ [u, u]\<rparr>"
    by (simp add: download_state_def [of pf db sp2 r2] s1)
  have q3: "queue (snd (pause u ?s2)) = remove1 u (queue s @ [u, u])"
    by (simp add: pause_queue s2)
  have c: "count_list (remove1 u (queue s @ [u, u])) u = Suc (count_list (queue s) u)"
    by (rule count_remove1_twice)
  have r1: "fst (download pf db sp1 r1 s) = Inr None" by (simp add: d1)
  have r2: "fst (download pf db sp2 r2 ?s1) = Inr None" by (simp add: d2)
  have rest: "queue ?s2 = queue s @ [u, u] \<and> active ?s2 = active s \<and>
     count_list (queue (snd (pause u ?s2))) u = Suc (count_list (queue s) u) \<and>
     (u \<notin> set (queue s) \<longrightarrow> queue (snd (pause u ?s2)) = queue s @ [u]) \<and>
     (u \<in> set (queue s) \<longrightarrow> queue (snd (pause u ?s2)) = remove1 u (queue s) @ [u, u])"
    using q3 c by (simp add: s2 remove1_append)
  from r1 r2 rest show "fst (download pf db sp1 r1 s) = Inr None \<and>
     fst (download pf db sp2 r2 ?s1) = Inr None \<and>
     queue ?s2 = queue s @ [u, u] \<and> active ?s2 = active s \<and>
     count_list (queue (snd (pause u ?s2))) u = Suc (count_list (queue s) u) \<and>
     (u \<notin> set (queue s) \<longrightarrow> queue (snd (pause u ?s2)) = queue s @ [u]) \<and>
     (u \<in> set (queue s) \<longrightarrow> queue (snd (pause u ?s2)) = remove1 u (queue s) @ [u, u])"
    by (intro conjI) simp_all
qed

text \<open>The same at limit 1 with one download running.\<close>

theorem queued_twice_witness:
  "simultaneous (sample_settings 1) \<le> active_size (download_state sample_platform
      (sample_settings 1) (started 7) (sample_request ''a'') initial) \<and>
   queue (download_state sample_platform (sample_settings 1) (started 9) (sample_request ''b'')
     (download_state sample_platform (sample_settings 1) (started 8) (sample_request ''b'')
       (download_state sample_platform (sample_settings 1) (started 7) (sample_request ''a'')
          initial))) = [''b'', ''b''] \<and>
   queue (snd (pause ''b''
     (download_state sample_platform (sample_settings 1) (started 9) (sample_request ''b'')
       (download_state sample_platform (sample_settings 1) (started 8) (sample_request ''b'')
         (download_state sample_platform (sample_settings 1) (started 7) (sample_request ''a'')
            initial))))) = [''b'']"
  using queued_twice [where db = "sample_settings 1" and s = "download_state sample_platform
      (sample_settings 1) (started 7) (sample_request ''a'') initial"
      and ?r1.0 = "sample_request ''b''" and u = "''b''" and ?r2.0 = "sample_request ''b''"
      and pf = sample_platform and ?sp1.0 = "started 8" and ?sp2.0 = "started 9"]
  by (simp add: launch_eval)

section \<open>Properties of the matcher\<close>

lemma first_some_SomeD: "first_some f xs = Some y \<Longrightarrow> \<exists>x\<in>set xs. f x = Some y"
  by (induction xs) (auto split: option.splits)

lemma match_plus_greedy:
  assumes tw: "takeWhile p s = a" and ne: "a \<noteq> []"
    and rest: "match_here r (drop (length a) s) = Some parts"
  shows "match_here (Plus p # r) s = Some (a # parts)"
proof -
  have tk: "take (length a) s = a"
    using tw takeWhile_eq_take [of p s] by simp
  from ne have pos: "0 < length a" by simp
  then have "rev [1 ..< Suc (length a)] = length a # rev [1 ..< length a]"
    by (simp add: Suc_le_eq)
  with tw tk rest show ?thesis by (simp add: match_here.simps(3))
qed

lemma match_here_sound:
  "match_here r s = Some parts \<Longrightarrow>
     list_all2 conforms r parts \<and> (\<exists>rest. s = concat parts @ rest)"
proof (induction r arbitrary: s parts)
  case Nil
  then show ?case by simp
next
  case (Cons it r)
  show ?case
  proof (cases it)
    case (Lit c)
    with Cons.prems obtain xs ps where s: "s = c # xs"
      and m: "match_here r xs = Some ps" and p: "parts = [c] # ps"
      by (auto split: list.splits if_splits)
    from Cons.IH [OF m] s p Lit show ?thesis by auto
  next
    case (Plus p)
    let ?n = "length (takeWhile p s)"
    from Cons.prems Plus have
      "first_some (\<lambda>k. map_option ((#) (take k s)) (match_here r (drop k s)))
         (rev [1 ..< Suc ?n]) = Some parts"
      by (simp only: match_here.simps)
    from first_some_SomeD [OF this] obtain k where k: "k \<in> set (rev [1 ..< Suc ?n])"
      and mk: "map_option ((#) (take k s)) (match_here r (drop k s)) = Some parts"
      by blast
    then obtain ps where m: "match_here r (drop k s) = Some ps" and p: "parts = take k s # ps"
      by auto
    from k have k1: "1 \<le> k" and kn: "k \<le> ?n" by auto
    have "?n \<le> length s" by (rule length_takeWhile_le)
    with k1 kn have ne: "take k s \<noteq> []" by auto
    have "take k s = take k (takeWhile p s)"
      using kn by (metis min.absorb2 min.commute takeWhile_eq_take take_take)
    then have "set (take k s) \<subseteq> set (takeWhile p s)"
      by (metis set_take_subset)
    then have al: "list_all p (take k s)"
      by (auto simp: list_all_iff dest: set_takeWhileD)
    from Cons.IH [OF m] obtain rest where cf: "list_all2 conforms r ps"
      and d: "drop k s = concat ps @ rest" by auto
    have "s = take k s @ drop k s" by simp
    with d have "s = take k s @ concat ps @ rest" by simp
    then have sp: "s = concat parts @ rest" by (simp add: p)
    have "list_all2 conforms (it # r) parts"
      using cf ne al by (simp add: p Plus)
    with sp show ?thesis by blast
  qed
qed

lemma match_from_sound:
  "match_from r s = Some parts \<Longrightarrow>
     list_all2 conforms r parts \<and> (\<exists>pre rest. s = pre @ concat parts @ rest)"
proof (induction s)
  case Nil
  then show ?case using match_here_sound [of r "[]" parts] by auto
next
  case (Cons x xs)
  show ?case
  proof (cases "match_here r (x # xs)")
    case None
    with Cons.prems have "match_from r xs = Some parts" by simp
    from Cons.IH [OF this] obtain pre rest where "list_all2 conforms r parts"
      and "xs = pre @ concat parts @ rest" by auto
    then have "list_all2 conforms r parts \<and> x # xs = (x # pre) @ concat parts @ rest" by simp
    then show ?thesis by blast
  next
    case (Some ps)
    with Cons.prems have "ps = parts" by simp
    with Some match_here_sound [of r "x # xs" parts] obtain rest where
      "list_all2 conforms r parts" and "x # xs = [] @ concat parts @ rest" by auto
    then show ?thesis by blast
  qed
qed

lemma match_from_here: "match_here r s = Some parts \<Longrightarrow> match_from r s = Some parts"
  by (cases s) simp_all

lemma match_from_complete: "match_from r s \<noteq> None \<Longrightarrow> match_from r (pre @ s) \<noteq> None"
  by (induction pre) (auto split: option.splits)

lemma has_pair_iff:
  "has_pair s \<longleftrightarrow> (\<exists>pre a c post. s = pre @ a # CHR '':'' # c # post \<and> digit a \<and> digit c)"
proof (induction s rule: has_pair.induct)
  case (1 a b c rest)
  show ?case
  proof
    assume "has_pair (a # b # c # rest)"
    then consider "digit a \<and> b = CHR '':'' \<and> digit c" | "has_pair (b # c # rest)" by auto
    then show "\<exists>pre a' c' post. a # b # c # rest = pre @ a' # CHR '':'' # c' # post \<and> digit a' \<and> digit c'"
    proof cases
      case 1
      then have "a # b # c # rest = [] @ a # CHR '':'' # c # rest \<and> digit a \<and> digit c" by simp
      then show ?thesis by blast
    next
      case 2
      with "1.IH" obtain pre a' c' post where
        "b # c # rest = pre @ a' # CHR '':'' # c' # post" "digit a'" "digit c'" by auto
      then have "a # b # c # rest = (a # pre) @ a' # CHR '':'' # c' # post \<and> digit a' \<and> digit c'"
        by simp
      then show ?thesis by blast
    qed
  next
    assume "\<exists>pre a' c' post. a # b # c # rest = pre @ a' # CHR '':'' # c' # post \<and> digit a' \<and> digit c'"
    then obtain pre a' c' post where
      e: "a # b # c # rest = pre @ a' # CHR '':'' # c' # post" and d: "digit a'" "digit c'" by auto
    show "has_pair (a # b # c # rest)"
    proof (cases pre)
      case Nil
      with e d show ?thesis by simp
    next
      case (Cons x pre')
      with e have "b # c # rest = pre' @ a' # CHR '':'' # c' # post" by simp
      with d have "\<exists>pre a c' post. b # c # rest = pre @ a # CHR '':'' # c' # post \<and> digit a \<and> digit c'"
        by blast
      with "1.IH" have "has_pair (b # c # rest)" by blast
      then show ?thesis by simp
    qed
  qed
qed (auto simp: Cons_eq_append_conv)

section \<open>Properties of \<open>getETA\<close>\<close>

lemma not_digit_colon: "\<not> digit CHR '':''"
  by (simp add: digit_def)

lemma takeWhile_digits_colon: "list_all digit h \<Longrightarrow> takeWhile digit (h @ CHR '':'' # rest) = h"
  by (induction h) (simp_all add: not_digit_colon)

lemma takeWhile_digits_all: "list_all digit h \<Longrightarrow> takeWhile digit h = h"
  by (induction h) simp_all

lemma match_digits_end:
  assumes "digits s"
  shows "match_here [Plus digit] s = Some [s]"
proof (rule match_plus_greedy)
  from assms show "takeWhile digit s = s" by (simp add: digits_def takeWhile_digits_all)
  from assms show "s \<noteq> []" by (simp add: digits_def)
  show "match_here [] (drop (length s) s) = Some []" by simp
qed

lemma match_digits_colon:
  assumes "digits m" and "match_here r rest = Some parts"
  shows "match_here (Plus digit # Lit CHR '':'' # r) (m @ CHR '':'' # rest) = Some (m # '':'' # parts)"
proof (rule match_plus_greedy)
  from assms show "takeWhile digit (m @ CHR '':'' # rest) = m"
    by (simp add: digits_def takeWhile_digits_colon)
  from assms show "m \<noteq> []" by (simp add: digits_def)
  from assms show "match_here (Lit CHR '':'' # r) (drop (length m) (m @ CHR '':'' # rest)) = Some ('':'' # parts)"
    by simp
qed

lemma exec_mRegex_exact:
  assumes "digits m" and "digits s"
  shows "exec mRegex (m @ '':'' @ s) = Some [(''min'', m), (''sec'', s)]"
proof -
  have "match_here [Plus digit, Lit CHR '':'', Plus digit] (m @ CHR '':'' # s) = Some [m, '':'', s]"
    by (rule match_digits_colon [OF assms(1) match_digits_end [OF assms(2)]])
  then have "match_from [Plus digit, Lit CHR '':'', Plus digit] (m @ CHR '':'' # s) = Some [m, '':'', s]"
    by (rule match_from_here)
  then show ?thesis by (simp add: exec_def mRegex_def)
qed

lemma exec_hRegex_exact:
  assumes "digits h" and "digits m" and "digits s"
  shows "exec hRegex (h @ '':'' @ m @ '':'' @ s) = Some [(''hr'', h), (''min'', m), (''sec'', s)]"
proof -
  have "match_here [Plus digit, Lit CHR '':'', Plus digit, Lit CHR '':'', Plus digit]
          (h @ CHR '':'' # m @ CHR '':'' # s) = Some [h, '':'', m, '':'', s]"
    by (rule match_digits_colon [OF assms(1) match_digits_colon [OF assms(2) match_digits_end [OF assms(3)]]])
  then have "match_from [Plus digit, Lit CHR '':'', Plus digit, Lit CHR '':'', Plus digit]
          (h @ CHR '':'' # m @ CHR '':'' # s) = Some [h, '':'', m, '':'', s]"
    by (rule match_from_here)
  then show ?thesis by (simp add: exec_def hRegex_def)
qed

lemma exec_hRegex_two_colons:
  assumes "exec hRegex t \<noteq> None"
  shows "2 \<le> count_list t CHR '':''"
proof -
  from assms obtain parts where
    m: "match_from [Plus digit, Lit CHR '':'', Plus digit, Lit CHR '':'', Plus digit] t = Some parts"
    by (auto simp: exec_def hRegex_def)
  from match_from_sound [OF m] obtain pre rest where
    cf: "list_all2 conforms [Plus digit, Lit CHR '':'', Plus digit, Lit CHR '':'', Plus digit] parts"
    and t: "t = pre @ concat parts @ rest" by blast
  from cf obtain a b c where "parts = [a, '':'', b, '':'', c]"
    by (auto simp: list_all2_Cons1)
  with t have "t = pre @ a @ '':'' @ b @ '':'' @ c @ rest" by simp
  then show ?thesis by simp
qed

lemma count_colon_digits: "list_all digit m \<Longrightarrow> count_list m CHR '':'' = 0"
  by (induction m) (auto simp: not_digit_colon)

lemma exec_hRegex_none:
  assumes "digits m" and "digits s"
  shows "exec hRegex (m @ '':'' @ s) = None"
proof (rule ccontr)
  assume "exec hRegex (m @ '':'' @ s) \<noteq> None"
  from exec_hRegex_two_colons [OF this] assms show False
    by (simp add: digits_def count_colon_digits)
qed

lemma decimal_fold_bound:
  "list_all digit s \<Longrightarrow>
     foldl (\<lambda>n c. 10 * n + (of_char c - 48)) (a::nat) s < (a + 1) * 10 ^ length s"
proof (induction s arbitrary: a)
  case Nil
  then show ?case by simp
next
  case (Cons c s)
  from Cons.prems have ds: "list_all digit s" and dc: "digit c" by simp_all
  from dc have d: "(of_char c :: nat) - 48 \<le> 9" by (auto simp: digit_def)
  from Cons.IH [OF ds]
  have "foldl (\<lambda>n c. 10 * n + (of_char c - 48)) (10 * a + (of_char c - 48)) s
          < (10 * a + (of_char c - 48) + 1) * 10 ^ length s" .
  also have "\<dots> \<le> (10 * a + 10) * 10 ^ length s"
    using d by (intro mult_right_mono) simp_all
  also have "\<dots> = (a + 1) * 10 ^ length (c # s)" by (simp add: algebra_simps)
  finally show ?case by simp
qed

lemma decimal_bound: "list_all digit s \<Longrightarrow> decimal s < 10 ^ length s"
  using decimal_fold_bound [of s 0] by (simp add: decimal_def)

lemma Number_exact:
  assumes "digits s" and "length s \<le> 15"
  shows "Number s = decimal s" and "decimal s + 1 < 2 ^ 53"
proof -
  from assms have "decimal s < 10 ^ length s" by (simp add: digits_def decimal_bound)
  also have "(10::nat) ^ length s \<le> 10 ^ 15" using assms(2) by (intro power_increasing) simp_all
  finally have b: "decimal s < 10 ^ 15" .
  then show "decimal s + 1 < 2 ^ 53" by simp
  then show "Number s = decimal s" by (simp add: Number_def to_double_def)
qed

lemma plus1_exact: "x + 1 < 2 ^ 53 \<Longrightarrow> plus1 x = x + 1"
  by (simp add: plus1_def to_double_def)

lemma conforms_digits_split:
  assumes "conforms (Plus digit) x"
  shows "x = butlast x @ [last x]" and "digit (last x)" and "x = hd x # tl x" and "digit (hd x)"
proof -
  from assms have ne: "x \<noteq> []" and al: "list_all digit x" by simp_all
  from ne show "x = butlast x @ [last x]" and "x = hd x # tl x" by simp_all
  from ne al show "digit (last x)" and "digit (hd x)" by (simp_all add: list_all_iff)
qed

lemma exec_mRegex_pair:
  assumes "exec mRegex t \<noteq> None"
  shows "has_pair t"
proof -
  from assms obtain parts where
    m: "match_from [Plus digit, Lit CHR '':'', Plus digit] t = Some parts"
    by (auto simp: exec_def mRegex_def)
  from match_from_sound [OF m] obtain pre rest where
    cf: "list_all2 conforms [Plus digit, Lit CHR '':'', Plus digit] parts"
    and t: "t = pre @ concat parts @ rest" by blast
  from cf obtain x y where p: "parts = [x, '':'', y]"
    and x: "conforms (Plus digit) x" and y: "conforms (Plus digit) y"
    by (auto simp: list_all2_Cons1)
  from conforms_digits_split [OF x] have x1: "x = butlast x @ [last x]" and x2: "digit (last x)"
    by blast+
  from conforms_digits_split [OF y] have y1: "y = hd y # tl y" and y2: "digit (hd y)"
    by blast+
  from t p have "t = pre @ x @ '':'' @ y @ rest" by simp
  then have "t = pre @ (butlast x @ [last x]) @ '':'' @ (hd y # tl y) @ rest"
    using x1 y1 by simp
  then have "t = (pre @ butlast x) @ last x # CHR '':'' # hd y # (tl y @ rest)" by simp
  with x2 y2 show ?thesis unfolding has_pair_iff by blast
qed

lemma exec_hRegex_pair:
  assumes "exec hRegex t \<noteq> None"
  shows "has_pair t"
proof -
  from assms obtain parts where
    m: "match_from [Plus digit, Lit CHR '':'', Plus digit, Lit CHR '':'', Plus digit] t = Some parts"
    by (auto simp: exec_def hRegex_def)
  from match_from_sound [OF m] obtain pre rest where
    cf: "list_all2 conforms [Plus digit, Lit CHR '':'', Plus digit, Lit CHR '':'', Plus digit] parts"
    and t: "t = pre @ concat parts @ rest" by blast
  from cf obtain x y z where p: "parts = [x, '':'', y, '':'', z]"
    and x: "conforms (Plus digit) x" and y: "conforms (Plus digit) y"
    by (auto simp: list_all2_Cons1)
  from conforms_digits_split [OF x] have x1: "x = butlast x @ [last x]" and x2: "digit (last x)"
    by blast+
  from conforms_digits_split [OF y] have y1: "y = hd y # tl y" and y2: "digit (hd y)"
    by blast+
  from t p have "t = pre @ x @ '':'' @ y @ '':'' @ z @ rest" by simp
  then have "t = pre @ (butlast x @ [last x]) @ '':'' @ (hd y # tl y) @ '':'' @ z @ rest"
    using x1 y1 by simp
  then have "t = (pre @ butlast x) @ last x # CHR '':'' # hd y # (tl y @ '':'' @ z @ rest)" by simp
  with x2 y2 show ?thesis unfolding has_pair_iff by blast
qed

lemma pair_exec_mRegex:
  assumes "has_pair t"
  shows "exec mRegex t \<noteq> None"
proof -
  from assms obtain pre a c post where t: "t = pre @ a # CHR '':'' # c # post"
    and a: "digit a" and c: "digit c" unfolding has_pair_iff by blast
  let ?y = "takeWhile digit (c # post)"
  have "match_here [Plus digit] (c # post) = Some [?y]"
    by (rule match_plus_greedy) (use c in simp_all)
  then have 2: "match_here [Lit CHR '':'', Plus digit] (drop (length [a]) (a # CHR '':'' # c # post))
      = Some ['':'', ?y]" by simp
  have "match_here [Plus digit, Lit CHR '':'', Plus digit] (a # CHR '':'' # c # post)
      = Some [[a], '':'', ?y]"
    by (rule match_plus_greedy [OF _ _ 2]) (use a in \<open>simp_all add: not_digit_colon\<close>)
  then have "match_from [Plus digit, Lit CHR '':'', Plus digit] (a # CHR '':'' # c # post)
      \<noteq> None" by (simp add: match_from_here)
  then have "match_from [Plus digit, Lit CHR '':'', Plus digit] (pre @ a # CHR '':'' # c # post)
      \<noteq> None" by (rule match_from_complete)
  with t show ?thesis by (simp add: exec_def mRegex_def)
qed

lemma getETA_error_iff: "getETA eta = Inl e \<longleftrightarrow> e = TypeError \<and> \<not> has_pair eta"
proof (cases "exec hRegex eta")
  case (Some g)
  then have "has_pair eta" by (intro exec_hRegex_pair) simp
  with Some show ?thesis by (simp add: getETA_def Let_def)
next
  case None
  show ?thesis
  proof (cases "exec mRegex eta")
    case (Some g)
    then have "has_pair eta" by (intro exec_mRegex_pair) simp
    with Some None show ?thesis by (simp add: getETA_def Let_def)
  next
    case n: None
    with pair_exec_mRegex [of eta] have "\<not> has_pair eta" by blast
    with n None show ?thesis by (auto simp: getETA_def)
  qed
qed

section \<open>Properties of the progress parser\<close>

lemma getETA_three_fields:
  assumes h: "digits h" "length h \<le> 15" and m: "digits m" "length m \<le> 15"
    and s: "digits s" "length s \<le> 15"
  shows "getETA (h @ '':'' @ m @ '':'' @ s) =
     Inr (if decimal h \<noteq> 0
          then number_to_string (if decimal m \<ge> 30 then decimal h + 1 else decimal h) @ ''h left''
          else if decimal m \<noteq> 0
          then number_to_string (if decimal s \<ge> 30 then decimal m + 1 else decimal m) @ ''min left''
          else number_to_string (decimal s + 1) @ ''s left'')"
proof -
  from h(1) have hne: "h \<noteq> []" by (simp add: digits_def)
  note ex = exec_hRegex_exact [OF h(1) m(1) s(1)]
  note nh = Number_exact [OF h] and nm = Number_exact [OF m] and ns = Number_exact [OF s]
  show ?thesis
    unfolding getETA_def ex
    by (simp add: group_def hne nh(1) nm(1) ns(1)
        plus1_exact [OF nh(2)] plus1_exact [OF nm(2)] plus1_exact [OF ns(2)])
qed

lemma getETA_two_fields:
  assumes m: "digits m" "length m \<le> 15" and s: "digits s" "length s \<le> 15"
  shows "getETA (m @ '':'' @ s) =
     Inr (if decimal m \<noteq> 0
          then number_to_string (if decimal s \<ge> 30 then decimal m + 1 else decimal m) @ ''min left''
          else number_to_string (decimal s + 1) @ ''s left'')"
proof -
  note ex = exec_mRegex_exact [OF m(1) s(1)] and no = exec_hRegex_none [OF m(1) s(1)]
  note nm = Number_exact [OF m] and ns = Number_exact [OF s]
  show ?thesis
    unfolding getETA_def ex no
    by (simp add: group_def nm(1) ns(1) plus1_exact [OF nm(2)] plus1_exact [OF ns(2)])
qed

lemmas eta_eval = getETA_def exec_def hRegex_def mRegex_def digit_def group_def Number_def
  decimal_def to_double_def plus1_def match_here.simps(3) number_to_string.simps

text \<open>
  Claim C4 gives \<open>"1min left"\<close> for the ETA text \<open>"00:45"\<close>. Its minutes are zero, so
  \<open>getETA\<close> takes the last branch and answers with the seconds plus one.
\<close>

theorem getETA_counterexample: "getETA ''00:45'' \<noteq> Inr ''1min left''"
  by (simp add: eta_eval)

text \<open>
  Claim C4 as the code has it. For an ETA text \<open>H:MM:SS\<close> or \<open>MM:SS\<close> whose fields are
  runs of at most 15 digits (numbers that a double holds exactly): if the hours are there
  and not zero the result is the hours, one more when the minutes are 30 or more, followed
  by \<open>"h left"\<close>; else if the minutes are not zero it is the minutes, one more when the
  seconds are 30 or more, followed by \<open>"min left"\<close>; else it is the seconds plus one
  followed by \<open>"s left"\<close>. So \<open>"00:45"\<close> gives \<open>"46s left"\<close>, \<open>"44:10"\<close> gives
  \<open>"44min left"\<close>, \<open>"01:35:00"\<close> gives \<open>"2h left"\<close> and \<open>"00:00:03"\<close> gives
  \<open>"4s left"\<close>.
\<close>

theorem getETA_rounds:
  "(digits h \<and> length h \<le> 15 \<and> digits m \<and> length m \<le> 15 \<and> digits s \<and> length s \<le> 15 \<longrightarrow>
      getETA (h @ '':'' @ m @ '':'' @ s) =
        Inr (if decimal h \<noteq> 0
             then number_to_string (if decimal m \<ge> 30 then decimal h + 1 else decimal h) @ ''h left''
             else if decimal m \<noteq> 0
             then number_to_string (if decimal s \<ge> 30 then decimal m + 1 else decimal m) @ ''min left''
             else number_to_string (decimal s + 1) @ ''s left'')) \<and>
   (digits m \<and> length m \<le> 15 \<and> digits s \<and> length s \<le> 15 \<longrightarrow>
      getETA (m @ '':'' @ s) =
        Inr (if decimal m \<noteq> 0
             then number_to_string (if decimal s \<ge> 30 then decimal m + 1 else decimal m) @ ''min left''
             else number_to_string (decimal s + 1) @ ''s left'')) \<and>
   getETA ''00:45'' = Inr ''46s left'' \<and>
   getETA ''44:10'' = Inr ''44min left'' \<and>
   getETA ''01:35:00'' = Inr ''2h left'' \<and>
   getETA ''00:00:03'' = Inr ''4s left''"
proof -
  have a: "getETA ''00:45'' = Inr ''46s left''" by (simp add: eta_eval)
  have b: "getETA ''44:10'' = Inr ''44min left''" by (simp add: eta_eval)
  have c: "getETA ''01:35:00'' = Inr ''2h left''" by (simp add: eta_eval)
  have d: "getETA ''00:00:03'' = Inr ''4s left''" by (simp add: eta_eval)
  from a b c d show ?thesis
    using getETA_three_fields [of h m s] getETA_two_fields [of m s] by blast
qed

text \<open>The rule at the fields 1, 29 and 59, with and without the hours.\<close>

theorem getETA_rounds_witness:
  "digits ''1'' \<and> length ''1'' \<le> 15 \<and> digits ''29'' \<and> length ''29'' \<le> 15 \<and>
   digits ''59'' \<and> length ''59'' \<le> 15 \<and>
   getETA ''1:29:59'' = Inr ''1h left'' \<and> getETA ''29:59'' = Inr ''30min left''"
  using getETA_rounds [of "''1''" "''29''" "''59''"]
  by (simp add: digits_def digit_def decimal_def number_to_string.simps)

lemmas progress_eval = getProgress_def progress_regex_def word_char_def Let_def eta_eval

text \<open>
  Claim C10. Some line makes \<open>getProgress\<close> raise instead of returning a progress
  object, \<open>'processing'\<close> or the empty string. It raises exactly on the lines that the
  five-group pattern matches with an ETA text in which no two digits stand around a colon,
  and the exception is always the \<open>TypeError\<close> of \<open>getETA\<close>; on every other line
  \<open>getProgress\<close> returns.
\<close>

theorem getProgress_raises:
  "(\<exists>line. getProgress fixed2 line = Inl TypeError) \<and>
   (\<forall>line. getProgress fixed2 line = Inl TypeError \<longleftrightarrow>
      (\<exists>groups. exec progress_regex line = Some groups \<and> \<not> has_pair (group groups ''eta''))) \<and>
   (\<forall>line e. getProgress fixed2 line = Inl e \<longrightarrow> e = TypeError)"
proof -
  have "getProgress fixed2 ''[download]  45.2% of 100.00MiB at  1.20MiB/s ETA 12'' = Inl TypeError"
    by (simp add: progress_eval)
  then have 1: "\<exists>line. getProgress fixed2 line = Inl TypeError" by blast
  have 2: "getProgress fixed2 line = Inl e \<longleftrightarrow>
      e = TypeError \<and> (\<exists>groups. exec progress_regex line = Some groups \<and> \<not> has_pair (group groups ''eta''))"
    for line e
  proof (cases "exec progress_regex line")
    case None
    then show ?thesis by (simp add: getProgress_def)
  next
    case (Some g)
    show ?thesis
    proof (cases "getETA (group g ''eta'')")
      case (Inl e')
      with Some getETA_error_iff [of "group g ''eta''" e'] show ?thesis
        by (auto simp: getProgress_def Let_def)
    next
      case (Inr left)
      with getETA_error_iff [of "group g ''eta''" TypeError] have "has_pair (group g ''eta'')"
        by auto
      with Some Inr show ?thesis by (simp add: getProgress_def Let_def)
    qed
  qed
  from 1 2 show ?thesis by blast
qed

text \<open>A line whose ETA is the bare number 12.\<close>

theorem getProgress_raises_witness:
  "exec progress_regex ''[download]  45.2% of 100.00MiB at  1.20MiB/s ETA 12'' =
     Some [(''percent'', ''45.2''), (''size'', ''100.00''), (''unit'', ''MiB''),
           (''speed'', ''1.20MiB/s''), (''eta'', ''12'')] \<and>
   \<not> has_pair ''12'' \<and>
   getProgress (\<lambda>percent size. []) ''[download]  45.2% of 100.00MiB at  1.20MiB/s ETA 12'' = Inl TypeError"
proof -
  have e: "exec progress_regex ''[download]  45.2% of 100.00MiB at  1.20MiB/s ETA 12'' =
     Some [(''percent'', ''45.2''), (''size'', ''100.00''), (''unit'', ''MiB''),
           (''speed'', ''1.20MiB/s''), (''eta'', ''12'')]"
    by (simp add: exec_def progress_regex_def digit_def word_char_def match_here.simps(3))
  have p: "\<not> has_pair ''12''" by simp
  from getProgress_raises [of "\<lambda>percent size. []"] e p show ?thesis
    by (simp add: group_def)
qed

text \<open>
  Claim C6 promises a progress object for every line that the five-group pattern matches.
  The line below is what the extractor prints when the remaining time passes 99 hours:
  the pattern matches it, with the ETA text \<open>":"\<close>, and \<open>getProgress\<close> raises.
\<close>

theorem getProgress_slow_download:
  "exec progress_regex ''[download]   0.1% of 4.00GiB at  1.20KiB/s ETA --:--:--'' =
     Some [(''percent'', ''0.1''), (''size'', ''4.00''), (''unit'', ''GiB''),
           (''speed'', ''1.20KiB/s''), (''eta'', '':'')] \<and>
   getProgress fixed2 ''[download]   0.1% of 4.00GiB at  1.20KiB/s ETA --:--:--'' = Inl TypeError"
  by (simp add: progress_eval)

text \<open>
  On the lines where \<open>getProgress\<close> returns: a match whose ETA text holds two digits
  around a colon gives the progress object, with the size and the unit joined without a
  separator; a line without a match gives \<open>'processing'\<close> if it holds \<open>[ffmpeg]\<close>
  and the empty string otherwise.
\<close>

lemma getProgress_classifies:
  "(exec progress_regex line = Some groups \<and> has_pair (group groups ''eta'') \<longrightarrow>
      (\<exists>left. getETA (group groups ''eta'') = Inr left \<and>
         getProgress fixed2 line =
           Inr (Progress \<lparr>p_percent = group groups ''percent'',
                           p_downloaded = fixed2 (group groups ''percent'') (group groups ''size''),
                           p_size = group groups ''size'' @ group groups ''unit'',
                           p_speed = group groups ''speed'', p_eta = left\<rparr>))) \<and>
   (exec progress_regex line = None \<and> includes_str line ''[ffmpeg]'' \<longrightarrow>
      getProgress fixed2 line = Inr Processing) \<and>
   (exec progress_regex line = None \<and> \<not> includes_str line ''[ffmpeg]'' \<longrightarrow>
      getProgress fixed2 line = Inr Empty)"
proof -
  have "\<exists>left. getETA eta = Inr left" if "has_pair eta" for eta
    using that getETA_error_iff [of eta] by (cases "getETA eta") auto
  then have "\<exists>left. getETA (group groups ''eta'') = Inr left \<and>
         getProgress fixed2 line =
           Inr (Progress \<lparr>p_percent = group groups ''percent'',
                           p_downloaded = fixed2 (group groups ''percent'') (group groups ''size''),
                           p_size = group groups ''size'' @ group groups ''unit'',
                           p_speed = group groups ''speed'', p_eta = left\<rparr>)"
    if "exec progress_regex line = Some groups" and "has_pair (group groups ''eta'')"
    using that by (fastforce simp: getProgress_def Let_def)
  then show ?thesis by (simp add: getProgress_def)
qed

section \<open>Properties of the format ranker\<close>
























lemmas fmt_eval = getFormats_def sort_by_def to_format_def key_def compare_def parseInt_def
  parseInt_str_def nullish_def white_space_def digit_value_def to_double_def Let_def
  sample_720_def sample_360_def sample_source_def sample_hls_def sample_audio_def




section \<open>Properties of the metadata stream\<close>

lemmas dl_eval = createDownloadable_def JSON_parse_def getSubtitles_def getDuration_def floor_text_def
  js_rem_def pad_def int_to_string_def number_to_string.simps is_array_index_def digits_def
  digit_def decimal_def sample_metadata_def

lemma set_partition_keys:
  "set (sort_key f (filter P ks) @ filter (\<lambda>k. \<not> P k) ks) = set ks"
  by auto

lemma length_partition_keys:
  "length (sort_key f (filter P ks) @ filter (\<lambda>k. \<not> P k) ks) = length ks"
  using sum_length_filter_compl [of P ks] by simp

lemma no_index_keys:
  "\<forall>k \<in> set ks. \<not> P k \<Longrightarrow> sort_key f (filter P ks) @ filter (\<lambda>k. \<not> P k) ks = ks"
  by (simp add: filter_empty_conv [THEN iffD2])

text \<open>
  Claim C8 gives the empty list for a subtitle map that is absent. \<open>getSubtitles\<close>
  compares with \<open>null\<close> only, and \<open>Object.keys(undefined)\<close> raises.
\<close>

theorem getSubtitles_counterexample: "getSubtitles JUndefined \<noteq> Inr []"
  by (simp add: getSubtitles_def)

text \<open>
  Claim C8 as the code has it. The map \<open>null\<close> gives the empty list; an absent map,
  \<open>undefined\<close>, raises a \<open>TypeError\<close>; an object gives its keys, each once and whatever
  the values are: in the order of the object when no key is an array index, as no
  language code is.
\<close>

theorem getSubtitles_keys:
  "getSubtitles JNull = Inr [] \<and>
   getSubtitles JUndefined = Inl TypeError \<and>
   (\<exists>ks. getSubtitles (JObj kvs) = Inr ks \<and> set ks = fst ` set kvs \<and> length ks = length kvs) \<and>
   ((\<forall>k \<in> set (map fst kvs). \<not> is_array_index k) \<longrightarrow>
      getSubtitles (JObj kvs) = Inr (map fst kvs)) \<and>
   (map fst kvs = map fst kvs' \<longrightarrow> getSubtitles (JObj kvs) = getSubtitles (JObj kvs'))"
proof -
  have 1: "getSubtitles JNull = Inr []" and 2: "getSubtitles JUndefined = Inl TypeError"
    by (simp_all add: getSubtitles_def)
  let ?ks = "sort_key decimal (filter is_array_index (map fst kvs)) @
             filter (\<lambda>k. \<not> is_array_index k) (map fst kvs)"
  have o: "getSubtitles (JObj kvs) = Inr ?ks" by (simp add: getSubtitles_def)
  have "set ?ks = fst ` set kvs"
    using set_partition_keys [of decimal is_array_index "map fst kvs"] by simp
  moreover have "length ?ks = length kvs"
    using length_partition_keys [of decimal is_array_index "map fst kvs"] by simp
  ultimately have 3: "\<exists>ks. getSubtitles (JObj kvs) = Inr ks \<and> set ks = fst ` set kvs \<and>
      length ks = length kvs"
    using o by blast
  have 4: "(\<forall>k \<in> set (map fst kvs). \<not> is_array_index k) \<longrightarrow>
      getSubtitles (JObj kvs) = Inr (map fst kvs)"
    using no_index_keys [of "map fst kvs" is_array_index decimal] o by auto
  have 5: "map fst kvs = map fst kvs' \<longrightarrow> getSubtitles (JObj kvs) = getSubtitles (JObj kvs')"
    by (simp add: getSubtitles_def)
  show ?thesis by (intro conjI 1 2 3 4 5)
qed

text \<open>A map with subtitles in two languages.\<close>

theorem getSubtitles_keys_witness:
  "\<not> is_array_index ''en'' \<and> \<not> is_array_index ''de'' \<and>
   getSubtitles (JObj [(''en'', JArr [JObj [(''ext'', JStr ''vtt'')]]), (''de'', JNull)])
     = Inr [''en'', ''de''] \<and>
   map fst [(''en'', JArr [JObj [(''ext'', JStr ''vtt'')]]), (''de'', JNull)]
     = map fst [(''en'', JStr ''x''), (''de'', JStr ''y'')] \<and>
   getSubtitles (JObj [(''en'', JStr ''x''), (''de'', JStr ''y'')]) = Inr [''en'', ''de'']"
proof -
  have i: "\<not> is_array_index ''en''" "\<not> is_array_index ''de''"
    by (simp_all add: is_array_index_def digits_def digit_def)
  note th = getSubtitles_keys [of "[(''en'', JArr [JObj [(''ext'', JStr ''vtt'')]]), (''de'', JNull)]"
      "[(''en'', JStr ''x''), (''de'', JStr ''y'')]"]
  have a: "getSubtitles (JObj [(''en'', JArr [JObj [(''ext'', JStr ''vtt'')]]), (''de'', JNull)])
      = Inr [''en'', ''de'']"
    using th [THEN conjunct2, THEN conjunct2, THEN conjunct2, THEN conjunct1] i by simp
  have b: "getSubtitles (JObj [(''en'', JArr [JObj [(''ext'', JStr ''vtt'')]]), (''de'', JNull)])
      = getSubtitles (JObj [(''en'', JStr ''x''), (''de'', JStr ''y'')])"
    using th [THEN conjunct2, THEN conjunct2, THEN conjunct2, THEN conjunct2] by simp
  from a b have c: "getSubtitles (JObj [(''en'', JStr ''x''), (''de'', JStr ''y'')]) = Inr [''en'', ''de'']"
    by simp
  have d: "map fst [(''en'', JArr [JObj [(''ext'', JStr ''vtt'')]]), (''de'', JNull)]
     = map fst [(''en'', JStr ''x''), (''de'', JStr ''y'')]" by simp
  show ?thesis by (intro conjI i a d c)
qed

lemma transform_all_ok:
  "map f cs = map Inr xs \<Longrightarrow> transform_all f cs = (xs, None)"
proof (induction cs arbitrary: xs)
  case Nil
  then show ?case by simp
next
  case (Cons c cs)
  then obtain x xs' where xs: "xs = x # xs'" and c: "f c = Inr x"
    and rest: "map f cs = map Inr xs'" by (cases xs) auto
  from Cons.IH [OF rest] c xs show ?case by simp
qed

lemma transform_all_raise:
  "map f before = map Inr xs \<Longrightarrow> f c = Inl e \<Longrightarrow>
     transform_all f (before @ c # after) = (xs, Some e)"
proof (induction before arbitrary: xs)
  case Nil
  then show ?case by simp
next
  case (Cons b before)
  then obtain x xs' where xs: "xs = x # xs'" and b: "f b = Inr x"
    and rest: "map f before = map Inr xs'" by (cases xs) auto
  from Cons.IH [OF rest Cons.prems(2)] b xs show ?case by simp
qed

text \<open>
  Claim C7 lets the stream go on after a chunk that does not parse, with a record for
  each later chunk that does. For a malformed chunk followed by the metadata of a clip,
  which alone gives its downloadable, \<open>fetchInfo\<close> pushes nothing at all.
\<close>

theorem fetchInfo_counterexample:
  "createDownloadable () (Json sample_metadata) =
     Inr sample_downloadable \<and>
   fetchInfo () [Malformed, Json sample_metadata] = ([], Some SyntaxError)"
proof -
  have "createDownloadable () (Json sample_metadata) =
     Inr sample_downloadable"
    by (simp add: dl_eval fmt_eval sample_downloadable_def)
  moreover have "fetchInfo () [Malformed, Json sample_metadata] = ([], Some SyntaxError)"
    by (simp add: fetchInfo_def createDownloadable_def JSON_parse_def)
  ultimately show ?thesis by (rule conjI)
qed

text \<open>
  Claim C7 as the code has it. A chunk that does not parse makes \<open>createDownloadable\<close>
  raise the \<open>SyntaxError\<close> of \<open>JSON.parse\<close>. Whatever exception a chunk raises, the
  stream has pushed the downloadables of the chunks before it, and pushes nothing for it
  or for any chunk after it; a run of chunks that all give their downloadable pushes them
  all, in order.
\<close>

theorem fetchInfo_stops:
  "createDownloadable stopped Malformed = Inl SyntaxError \<and>
   (map (createDownloadable stopped) before = map Inr ds \<and>
    createDownloadable stopped c = Inl e \<longrightarrow>
      fetchInfo stopped (before @ c # after) = (ds, Some e)) \<and>
   (map (createDownloadable stopped) before = map Inr ds \<longrightarrow>
      fetchInfo stopped before = (ds, None))"
proof -
  have 1: "createDownloadable stopped Malformed = Inl SyntaxError"
    by (simp add: createDownloadable_def JSON_parse_def)
  have 2: "map (createDownloadable stopped) before = map Inr ds \<and>
      createDownloadable stopped c = Inl e \<longrightarrow>
      fetchInfo stopped (before @ c # after) = (ds, Some e)"
    unfolding fetchInfo_def using transform_all_raise [of "createDownloadable stopped" before ds c e after]
    by blast
  have 3: "map (createDownloadable stopped) before = map Inr ds \<longrightarrow>
      fetchInfo stopped before = (ds, None)"
    unfolding fetchInfo_def using transform_all_ok [of "createDownloadable stopped" before ds]
    by blast
  show ?thesis by (intro conjI 1 2 3)
qed

text \<open>The clip, a chunk that does not parse, and the clip again: one downloadable is pushed.\<close>

theorem fetchInfo_stops_witness:
  "map (createDownloadable ()) [Json sample_metadata] = map Inr [sample_downloadable] \<and>
   createDownloadable () Malformed = Inl SyntaxError \<and>
   fetchInfo () ([Json sample_metadata] @ Malformed # [Json sample_metadata])
     = ([sample_downloadable], Some SyntaxError)"
proof -
  have a: "map (createDownloadable ()) [Json sample_metadata] = map Inr [sample_downloadable]"
    by (simp add: dl_eval fmt_eval sample_downloadable_def)
  note th = fetchInfo_stops [of "()" "[Json sample_metadata]" "[sample_downloadable]" Malformed
      SyntaxError "[Json sample_metadata]"]
  from th have b: "createDownloadable () Malformed = Inl SyntaxError" by (rule conjunct1)
  from th a b have c: "fetchInfo () ([Json sample_metadata] @ Malformed # [Json sample_metadata])
     = ([sample_downloadable], Some SyntaxError)" by blast
  show ?thesis by (intro conjI a b c)
qed

end
